theory Spec2Isabelle
  imports Main
begin

unbundle bit_operations_syntax

section \<open>JavaScript values used by the revision engine\<close>

text \<open>
  Strings are modelled by their UTF-8 bytes (\<open>string\<close> is a list of 8-bit characters), so
  \<open>TextEncoder.encode\<close> is the identity on the bytes, and \<open>split("-")\<close>, which
  cuts at an ASCII character, cuts the byte sequence at the same places. The order of two
  strings by their bytes is their order by UTF-16 code units, which is what \<open><\<close> and
  \<open>>\<close> compare, as long as no character beyond U+FFFF is involved; revision
  identifiers are digits, \<open>-\<close> and hexadecimal letters.

  Numbers are IEEE doubles. Every number the engine handles is the result of
  \<open>parseInt\<close>, of adding 1 to such a result, or of subtracting two of them, so it is
  \<open>NaN\<close>, an infinity, or an integer that a double represents exactly. \<open>Num i\<close>
  stands for the double whose value is the integer \<open>i\<close>; the two zeros are not
  distinguished (nothing in the source tells them apart).
\<close>

datatype jsnum = NaN | PosInf | NegInf | Num int

fun bitlen :: "nat \<Rightarrow> nat" where
  "bitlen n = (if n = 0 then 0 else Suc (bitlen (n div 2)))"

declare bitlen.simps [simp del]

text \<open>
  Rounding a natural number to the nearest double, ties to even; \<open>None\<close> is the overflow
  to infinity.
\<close>

definition round_f64 :: "nat \<Rightarrow> nat option" where
  "round_f64 n =
     (if n < 2 ^ 53 then Some n
      else let e = bitlen n - 53;
               q = n div 2 ^ e;
               r = n mod 2 ^ e;
               h = 2 ^ (e - 1);
               q' = (if h < r \<or> (r = h \<and> odd q) then q + 1 else q)
           in if 2 ^ 1024 \<le> q' * 2 ^ e then None else Some (q' * 2 ^ e))"

definition jsnum_of_int :: "int \<Rightarrow> jsnum" where
  "jsnum_of_int i =
     (if 0 \<le> i
      then (case round_f64 (nat i) of None \<Rightarrow> PosInf | Some m \<Rightarrow> Num (int m))
      else (case round_f64 (nat (- i)) of None \<Rightarrow> NegInf | Some m \<Rightarrow> Num (- int m)))"

fun jsnum_neg :: "jsnum \<Rightarrow> jsnum" where
  "jsnum_neg NaN = NaN"
| "jsnum_neg PosInf = NegInf"
| "jsnum_neg NegInf = PosInf"
| "jsnum_neg (Num i) = Num (- i)"

fun jsnum_add :: "jsnum \<Rightarrow> jsnum \<Rightarrow> jsnum" where
  "jsnum_add (Num a) (Num b) = jsnum_of_int (a + b)"
| "jsnum_add NaN _ = NaN"
| "jsnum_add _ NaN = NaN"
| "jsnum_add PosInf NegInf = NaN"
| "jsnum_add NegInf PosInf = NaN"
| "jsnum_add PosInf _ = PosInf"
| "jsnum_add _ PosInf = PosInf"
| "jsnum_add NegInf _ = NegInf"
| "jsnum_add _ NegInf = NegInf"

definition jsnum_sub :: "jsnum \<Rightarrow> jsnum \<Rightarrow> jsnum" where
  "jsnum_sub a b = jsnum_add a (jsnum_neg b)"

text \<open>Strict equality \<open>===\<close> on numbers: \<open>NaN\<close> is not equal to itself.\<close>

definition js_eq :: "jsnum \<Rightarrow> jsnum \<Rightarrow> bool" where
  "js_eq a b = (a \<noteq> NaN \<and> a = b)"

text \<open>A comparator result is used by \<open>sort\<close> through its sign only; \<open>NaN\<close> counts as 0.\<close>

fun js_positive :: "jsnum \<Rightarrow> bool" where
  "js_positive PosInf = True"
| "js_positive (Num i) = (0 < i)"
| "js_positive _ = False"

subsection \<open>Number to string\<close>

definition digit_char :: "nat \<Rightarrow> char" where
  "digit_char n = ''0123456789'' ! (n mod 10)"

fun decimal :: "nat \<Rightarrow> string" where
  "decimal n = (if n < 10 then [digit_char n] else decimal (n div 10) @ [digit_char n])"

declare decimal.simps [simp del]

text \<open>
  \<open>Number::toString\<close> prints the shortest digit string \<open>s\<close> (of \<open>k\<close> digits) such that
  \<open>s * 10^(n-k)\<close> rounds to the number: followed by \<open>n-k\<close> zeros when \<open>n \<le> 21\<close>, in
  exponent notation otherwise. \<open>shortest_digits v d ks\<close> tries the lengths \<open>ks\<close> in turn
  for a value \<open>v\<close> of \<open>d\<close> decimal digits and returns \<open>s\<close>; of the two candidates of
  one length the one closer to \<open>v\<close> is taken (the even one on a tie). Below \<open>2^53\<close>
  every integer is a double, and the digits are the decimal expansion itself.
\<close>

fun shortest_digits :: "nat \<Rightarrow> nat \<Rightarrow> nat list \<Rightarrow> nat" where
  "shortest_digits v d [] = v"
| "shortest_digits v d (k # ks) =
     (let p = 10 ^ (d - k);
          lo = v div p;
          hi = lo + 1;
          lo_ok = (round_f64 (lo * p) = Some v);
          hi_ok = (hi < 10 ^ k \<and> round_f64 (hi * p) = Some v);
          lo_closer = (v - lo * p < hi * p - v \<or> (v - lo * p = hi * p - v \<and> even lo))
      in if lo_ok \<and> (\<not> hi_ok \<or> lo_closer) then lo
         else if hi_ok then hi
         else shortest_digits v d ks)"

definition shortest :: "nat \<Rightarrow> nat \<times> nat" where
  "shortest v =
     (let d = length (decimal v) in
      if round_f64 (10 ^ d) = Some v then (1, d + 1)
      else (shortest_digits v d [1, 2, 3, 4, 5, 6, 7, 8, 9, 10, 11, 12, 13, 14, 15, 16, 17], d))"

definition nat_to_string :: "nat \<Rightarrow> string" where
  "nat_to_string v =
     (if v < 2 ^ 53 then decimal v
      else (case shortest v of (s, n) \<Rightarrow>
              if n \<le> 21 then decimal s @ replicate (n - length (decimal s)) (CHR ''0'')
              else (case decimal s of
                      [] \<Rightarrow> []
                    | [c] \<Rightarrow> c # ''e+'' @ decimal (n - 1)
                    | c # cs \<Rightarrow> c # ''.'' @ cs @ ''e+'' @ decimal (n - 1))))"

fun numberToString :: "jsnum \<Rightarrow> string" where
  "numberToString NaN = ''NaN''"
| "numberToString PosInf = ''Infinity''"
| "numberToString NegInf = ''-Infinity''"
| "numberToString (Num i) =
     (if 0 \<le> i then nat_to_string (nat i) else ''-'' @ nat_to_string (nat (- i)))"

subsection \<open>parseInt(string, 10)\<close>

text \<open>
  Leading white space and line terminators are skipped (in UTF-8: the ASCII ones, U+00A0,
  U+1680, U+2000 to U+200A, U+2028, U+2029, U+202F, U+205F, U+3000 and U+FEFF), then an
  optional sign, then the longest run of decimal digits is read. No digit gives \<open>NaN\<close>.
  The value of the digits is rounded to the nearest double.
\<close>

definition ascii_space :: "char \<Rightarrow> bool" where
  "ascii_space c = (of_char c \<in> {9, 10, 11, 12, 13, 32 :: nat})"

definition space2 :: "char \<Rightarrow> char \<Rightarrow> bool" where
  "space2 a b = (of_char a = (0xC2 :: nat) \<and> of_char b = (0xA0 :: nat))"

definition space3 :: "char \<Rightarrow> char \<Rightarrow> char \<Rightarrow> bool" where
  "space3 a b c =
     (let x = of_char a :: nat; y = of_char b :: nat; z = of_char c :: nat in
      (x = 0xE1 \<and> y = 0x9A \<and> z = 0x80) \<or>
      (x = 0xE2 \<and> y = 0x80 \<and> (0x80 \<le> z \<and> z \<le> 0x8A \<or> z = 0xA8 \<or> z = 0xA9 \<or> z = 0xAF)) \<or>
      (x = 0xE2 \<and> y = 0x81 \<and> z = 0x9F) \<or>
      (x = 0xE3 \<and> y = 0x80 \<and> z = 0x80) \<or>
      (x = 0xEF \<and> y = 0xBB \<and> z = 0xBF))"

fun strip_space :: "string \<Rightarrow> string" where
  "strip_space (a # b # c # s) =
     (if ascii_space a then strip_space (b # c # s)
      else if space2 a b then strip_space (c # s)
      else if space3 a b c then strip_space s
      else a # b # c # s)"
| "strip_space [a, b] =
     (if ascii_space a then strip_space [b]
      else if space2 a b then []
      else [a, b])"
| "strip_space [a] = (if ascii_space a then [] else [a])"
| "strip_space [] = []"

definition is_digit :: "char \<Rightarrow> bool" where
  "is_digit c = (48 \<le> (of_char c :: nat) \<and> (of_char c :: nat) \<le> 57)"

fun digits_value :: "nat \<Rightarrow> string \<Rightarrow> nat" where
  "digits_value acc [] = acc"
| "digits_value acc (c # cs) = digits_value (acc * 10 + (of_char c - 48)) cs"

definition parseInt10 :: "string \<Rightarrow> jsnum" where
  "parseInt10 str =
     (let s = strip_space str;
          negative = (case s of c # _ \<Rightarrow> c = CHR ''-'' | [] \<Rightarrow> False);
          signed = (case s of c # _ \<Rightarrow> c = CHR ''-'' \<or> c = CHR ''+'' | [] \<Rightarrow> False);
          z = takeWhile is_digit (if signed then tl s else s)
      in if z = [] then NaN
         else jsnum_of_int (if negative then - int (digits_value 0 z) else int (digits_value 0 z)))"

subsection \<open>Strings\<close>

text \<open>\<open>s.split("-")\<close>: the pieces between the separators; never the empty list.\<close>

fun split_dash :: "string \<Rightarrow> string list" where
  "split_dash [] = [[]]"
| "split_dash (c # cs) =
     (if c = CHR ''-'' then [] # split_dash cs
      else (case split_dash cs of p # ps \<Rightarrow> (c # p) # ps | [] \<Rightarrow> [[c]]))"

text \<open>The relational operator \<open><\<close> on strings: lexicographic on the code units.\<close>

fun str_less :: "string \<Rightarrow> string \<Rightarrow> bool" where
  "str_less [] [] = False"
| "str_less [] (b # bs) = True"
| "str_less (a # as) [] = False"
| "str_less (a # as) (b # bs) =
     (if a = b then str_less as bs else (of_char a :: nat) < of_char b)"

text \<open>
  An array element read with an index, \<open>t[i]\<close>: \<open>undefined\<close> (here \<open>None\<close>) past the end.
\<close>

fun index :: "'a list \<Rightarrow> nat \<Rightarrow> 'a option" where
  "index [] i = None"
| "index (x # xs) 0 = Some x"
| "index (x # xs) (Suc i) = index xs i"

text \<open>Truthiness of a value that is a string or \<open>undefined\<close>: the empty string is falsy.\<close>

fun truthy :: "string option \<Rightarrow> bool" where
  "truthy None = False"
| "truthy (Some s) = (s \<noteq> [])"

text \<open>
  \<open>Array.prototype.sort\<close> with a comparator is stable; it is modelled as the stable
  insertion sort, taking the comparator's result by its sign. For a comparator that is a
  consistent ordering every stable sort returns this list.
\<close>

fun insert_by :: "('a \<Rightarrow> 'a \<Rightarrow> jsnum) \<Rightarrow> 'a \<Rightarrow> 'a list \<Rightarrow> 'a list" where
  "insert_by cmp x [] = [x]"
| "insert_by cmp x (y # ys) =
     (if js_positive (cmp x y) then y # insert_by cmp x ys else x # y # ys)"

definition array_sort :: "('a \<Rightarrow> 'a \<Rightarrow> jsnum) \<Rightarrow> 'a list \<Rightarrow> 'a list" where
  "array_sort cmp xs = foldr (insert_by cmp) xs []"

text \<open>A \<open>Map\<close> keeps its keys in insertion order; \<open>set\<close> on a present key keeps its place.\<close>

fun map_set :: "'k \<Rightarrow> 'v \<Rightarrow> ('k \<times> 'v) list \<Rightarrow> ('k \<times> 'v) list" where
  "map_set k v [] = [(k, v)]"
| "map_set k v ((k', v') # m) =
     (if k = k' then (k, v) # m else (k', v') # map_set k v m)"

section \<open>SHA-256\<close>

text \<open>
  The digest comes from the library function \<open>sha256\<close>, which is not part of the
  repository; it is written out here after FIPS 180-4, on 32-bit words kept as natural
  numbers below \<open>2^32\<close>, with the wrap-around of the addition explicit. The round
  constants (the first 32 bits of the fractional parts of the cube roots of the first 64
  primes) and the initial hash value (the same of the square roots of the first 8 primes)
  are written in decimal.
\<close>

definition add32 :: "nat \<Rightarrow> nat \<Rightarrow> nat" where
  "add32 x y = (x + y) mod 2 ^ 32"

definition shr :: "nat \<Rightarrow> nat \<Rightarrow> nat" where
  "shr n x = x div 2 ^ n"

definition rotr :: "nat \<Rightarrow> nat \<Rightarrow> nat" where
  "rotr n x = x div 2 ^ n + (x mod 2 ^ n) * 2 ^ (32 - n)"

definition not32 :: "nat \<Rightarrow> nat" where
  "not32 x = 2 ^ 32 - 1 - x"

definition Chi :: "nat \<Rightarrow> nat \<Rightarrow> nat \<Rightarrow> nat" where
  "Chi a b c = (a AND b) XOR (not32 a AND c)"

definition Maj :: "nat \<Rightarrow> nat \<Rightarrow> nat \<Rightarrow> nat" where
  "Maj a b c = (a AND b) XOR (a AND c) XOR (b AND c)"

definition Sigma0 :: "nat \<Rightarrow> nat" where
  "Sigma0 x = rotr 2 x XOR rotr 13 x XOR rotr 22 x"

definition Sigma1 :: "nat \<Rightarrow> nat" where
  "Sigma1 x = rotr 6 x XOR rotr 11 x XOR rotr 25 x"

definition sigma0 :: "nat \<Rightarrow> nat" where
  "sigma0 x = rotr 7 x XOR rotr 18 x XOR shr 3 x"

definition sigma1 :: "nat \<Rightarrow> nat" where
  "sigma1 x = rotr 17 x XOR rotr 19 x XOR shr 10 x"

definition sha256_K :: "nat list" where
  "sha256_K =
  [1116352408, 1899447441, 3049323471, 3921009573,
   961987163, 1508970993, 2453635748, 2870763221,
   3624381080, 310598401, 607225278, 1426881987,
   1925078388, 2162078206, 2614888103, 3248222580,
   3835390401, 4022224774, 264347078, 604807628,
   770255983, 1249150122, 1555081692, 1996064986,
   2554220882, 2821834349, 2952996808, 3210313671,
   3336571891, 3584528711, 113926993, 338241895,
   666307205, 773529912, 1294757372, 1396182291,
   1695183700, 1986661051, 2177026350, 2456956037,
   2730485921, 2820302411, 3259730800, 3345764771,
   3516065817, 3600352804, 4094571909, 275423344,
   430227734, 506948616, 659060556, 883997877,
   958139571, 1322822218, 1537002063, 1747873779,
   1955562222, 2024104815, 2227730452, 2361852424,
   2428436474, 2756734187, 3204031479, 3329325298]"



definition sha256_IV :: "nat list" where
  "sha256_IV = [1779033703, 3144134277, 1013904242, 2773480762,
                1359893119, 2600822924, 528734635, 1541459225]"

text \<open>Big-endian words of a byte sequence, and the blocks of sixteen words.\<close>

fun be_words :: "nat list \<Rightarrow> nat list" where
  "be_words (a # b # c # d # bs) = (((a * 256 + b) * 256 + c) * 256 + d) # be_words bs"
| "be_words bs = []"

fun blocks :: "nat list \<Rightarrow> nat list list" where
  "blocks (w0 # w1 # w2 # w3 # w4 # w5 # w6 # w7 # w8 # w9 # w10 # w11 # w12 # w13 # w14 # w15 # ws) =
     [w0, w1, w2, w3, w4, w5, w6, w7, w8, w9, w10, w11, w12, w13, w14, w15] # blocks ws"
| "blocks ws = []"

definition be64 :: "nat \<Rightarrow> nat list" where
  "be64 n = map (\<lambda>i. (n div 256 ^ i) mod 256) [7, 6, 5, 4, 3, 2, 1, 0]"

text \<open>
  Padding: the byte \<open>0x80\<close>, zero bytes up to 56 modulo 64, and the length in bits
  on eight bytes.
\<close>

definition pad :: "nat list \<Rightarrow> nat list" where
  "pad m = m @ [128] @ replicate ((119 - length m mod 64) mod 64) 0 @ be64 (8 * length m)"

text \<open>The message schedule: \<open>w\<close> holds \<open>W(0) .. W(t-1)\<close>, and the next word is \<open>W(t)\<close>.\<close>

definition next_w :: "nat list \<Rightarrow> nat" where
  "next_w w = add32 (add32 (add32 (sigma1 (w ! (length w - 2))) (w ! (length w - 7)))
                 (sigma0 (w ! (length w - 15)))) (w ! (length w - 16))"

fun extend :: "'a list \<Rightarrow> nat list \<Rightarrow> nat list" where
  "extend [] w = w"
| "extend (_ # n) w = extend n (w @ [next_w w])"

definition schedule :: "nat list \<Rightarrow> nat list" where
  "schedule blk = extend (drop 16 sha256_K) blk"

definition T1 :: "nat \<Rightarrow> nat \<Rightarrow> nat \<Rightarrow> nat \<Rightarrow> nat \<Rightarrow> nat \<Rightarrow> nat" where
  "T1 e f g h k w = add32 (add32 (add32 (add32 h (Sigma1 e)) (Chi e f g)) k) w"

definition T2 :: "nat \<Rightarrow> nat \<Rightarrow> nat \<Rightarrow> nat" where
  "T2 a b c = add32 (Sigma0 a) (Maj a b c)"

fun rnd :: "nat list \<Rightarrow> nat \<times> nat \<Rightarrow> nat list" where
  "rnd [a, b, c, d, e, f, g, h] (k, w) =
     [add32 (T1 e f g h k w) (T2 a b c), a, b, c, add32 d (T1 e f g h k w), e, f, g]"
| "rnd s _ = s"

definition compress :: "nat list \<Rightarrow> nat list \<Rightarrow> nat list" where
  "compress H blk = map2 add32 H (foldl rnd H (zip sha256_K (schedule blk)))"

definition word_bytes :: "nat \<Rightarrow> nat list" where
  "word_bytes w = map (\<lambda>i. (w div 256 ^ i) mod 256) [3, 2, 1, 0]"

definition sha256 :: "nat list \<Rightarrow> nat list" where
  "sha256 m = concat (map word_bytes (foldl compress sha256_IV (blocks (be_words (pad m)))))"

definition hex_digit :: "nat \<Rightarrow> char" where
  "hex_digit n = ''0123456789abcdef'' ! (n mod 16)"

definition bytesToHex :: "nat list \<Rightarrow> string" where
  "bytesToHex bs = concat (map (\<lambda>b. [hex_digit (b div 16), hex_digit b]) bs)"

text \<open>\<open>new TextEncoder().encode(s)\<close>: the UTF-8 bytes of the string.\<close>

definition encode :: "string \<Rightarrow> nat list" where
  "encode s = map of_char s"

definition sha256_hex :: "string \<Rightarrow> string" where
  "sha256_hex s = bytesToHex (sha256 (encode s))"

section \<open>The revision engine\<close>

text \<open>
  An event of the transport, as far as the engine reads it (the signature and the public
  key are never looked at).
\<close>

record Event =
  ev_id :: string
  ev_kind :: int
  ev_tags :: "string list list"
  ev_content :: string
  ev_created_at :: int

text \<open>
  A parent identifier is the second element of a \<open>v\<close> tag, and a tag of one element has
  none: the entry is then \<open>undefined\<close>, here \<open>None\<close>.
\<close>

record DocumentRevision =
  revisionId :: string
  content :: string
  prevRevisionIds :: "string option list"
  createdAt :: int
  eventId :: string
  deleted :: bool

record Document =
  doc_id :: string
  doc_content :: string
  doc_revisionId :: string
  doc_prevRevisionIds :: "string option list"
  doc_createdAt :: int
  doc_eventId :: string
  doc_deleted :: bool

record ParsedRevisionId =
  generation :: jsnum
  hash :: string

text \<open>
  \<open>const [genStr, hash] = revId.split("-")\<close> takes the first two pieces of the split;
  \<open>hash || ""\<close> turns a missing second piece into the empty string.
\<close>

definition parseRevisionId :: "string \<Rightarrow> ParsedRevisionId" where
  "parseRevisionId revId =
     (let parts = split_dash revId in
      \<lparr>generation = (case index parts 0 of Some genStr \<Rightarrow> parseInt10 genStr | None \<Rightarrow> NaN),
       hash = (case index parts 1 of Some h \<Rightarrow> h | None \<Rightarrow> [])\<rparr>)"

text \<open>
  The comparator of \<open>selectWinningRevision\<close>. \<open>localeCompare\<close> depends on the host's
  collation and is a parameter throughout. A generation that does not parse is \<open>NaN\<close>,
  which differs from every generation and makes the difference \<open>NaN\<close>: the comparator
  then ranks such a revision equal to every other one.
\<close>

definition compareRevisions ::
    "(string \<Rightarrow> string \<Rightarrow> int) \<Rightarrow> DocumentRevision \<Rightarrow> DocumentRevision \<Rightarrow> jsnum" where
  "compareRevisions localeCompare a b =
     (let parsedA = parseRevisionId (revisionId a);
          parsedB = parseRevisionId (revisionId b)
      in if \<not> js_eq (generation parsedB) (generation parsedA)
         then jsnum_sub (generation parsedB) (generation parsedA)
         else Num (localeCompare (hash parsedB) (hash parsedA)))"

text \<open>
  \<open>revisions.sort(...)[0]\<close> sorts the array it is given in place. The function returns
  the first element (\<open>undefined\<close> for an empty array) together with the array as the
  call leaves it.
\<close>

definition selectWinningRevision ::
    "(string \<Rightarrow> string \<Rightarrow> int) \<Rightarrow> DocumentRevision list
      \<Rightarrow> DocumentRevision option \<times> DocumentRevision list" where
  "selectWinningRevision localeCompare revisions =
     (let arr = array_sort (compareRevisions localeCompare) revisions
      in (index arr 0, arr))"

definition areInConflict :: "DocumentRevision \<Rightarrow> DocumentRevision \<Rightarrow> bool" where
  "areInConflict rev1 rev2 =
     (if prevRevisionIds rev1 = [] \<and> prevRevisionIds rev2 = []
      then revisionId rev1 \<noteq> revisionId rev2
      else list_ex (\<lambda>parent. parent \<in> set (prevRevisionIds rev1)) (prevRevisionIds rev2))"

text \<open>\<open>event.tags.find((t) => t[0] === name)?.[1]\<close>\<close>

definition tag_value :: "string \<Rightarrow> string list list \<Rightarrow> string option" where
  "tag_value name tags =
     (case find (\<lambda>t. index t 0 = Some name) tags of
        None \<Rightarrow> None
      | Some t \<Rightarrow> index t 1)"

definition eventToRevision :: "Event \<Rightarrow> DocumentRevision option" where
  "eventToRevision event =
     (if ev_kind event < 40000 \<or> ev_kind event \<ge> 50000 then None
      else
        let dTag = tag_value ''d'' (ev_tags event);
            iTag = tag_value ''i'' (ev_tags event);
            vTags = map (\<lambda>t. index t 1) (filter (\<lambda>t. index t 0 = Some ''v'') (ev_tags event));
            isDeleted = list_ex (\<lambda>t. index t 0 = Some ''deleted'') (ev_tags event)
        in if \<not> truthy dTag \<or> \<not> truthy iTag then None
           else (case iTag of
                   None \<Rightarrow> None
                 | Some i \<Rightarrow>
                     Some \<lparr>revisionId = i, content = ev_content event, prevRevisionIds = vTags,
                           createdAt = ev_created_at event, eventId = ev_id event,
                           deleted = isDeleted\<rparr>))"

text \<open>
  \<open>buildDocument\<close> calls \<open>selectWinningRevision\<close> on the array it is given, so it too
  returns the array as it leaves it.
\<close>

definition buildDocument ::
    "(string \<Rightarrow> string \<Rightarrow> int) \<Rightarrow> string \<Rightarrow> DocumentRevision list
      \<Rightarrow> Document option \<times> DocumentRevision list" where
  "buildDocument localeCompare docId revisions =
     (if revisions = [] then (None, revisions)
      else (case selectWinningRevision localeCompare revisions of
              (None, arr) \<Rightarrow> (None, arr)
            | (Some winning, arr) \<Rightarrow>
                (Some \<lparr>doc_id = docId, doc_content = content winning,
                       doc_revisionId = revisionId winning,
                       doc_prevRevisionIds = prevRevisionIds winning,
                       doc_createdAt = createdAt winning, doc_eventId = eventId winning,
                       doc_deleted = deleted winning\<rparr>, arr)))"

definition createDocumentTags ::
    "string \<Rightarrow> string \<Rightarrow> string list \<Rightarrow> bool \<Rightarrow> string list list" where
  "createDocumentTags docId revId prevRevIds isDeleted =
     [[''d'', docId], [''i'', revId]] @ map (\<lambda>prevRev. [''v'', prevRev]) prevRevIds
       @ (if isDeleted then [[''deleted'', '''']] else [])"

subsection \<open>The document store\<close>

text \<open>
  The two maps of the store keep their insertion order. A listener is a callback whose
  effect lies outside the store: listeners are told apart by a number, and \<open>invoked\<close>
  records every call made to one, in order.
\<close>

record DocumentStore =
  documents :: "(string \<times> Document) list"
  revisions :: "(string \<times> DocumentRevision list) list"
  listeners :: "nat list"
  cachedDocuments :: "Document list"
  invoked :: "nat list"

definition newDocumentStore :: DocumentStore where
  "newDocumentStore =
     \<lparr>documents = [], revisions = [], listeners = [], cachedDocuments = [], invoked = []\<rparr>"

record AddResult =
  accepted :: bool
  reason :: "string option"

definition accept :: AddResult where
  "accept = \<lparr>accepted = True, reason = None\<rparr>"

definition reject :: "string \<Rightarrow> AddResult" where
  "reject why = \<lparr>accepted = False, reason = Some why\<rparr>"

definition getDocument :: "DocumentStore \<Rightarrow> string \<Rightarrow> Document option" where
  "getDocument store docId = map_of (documents store) docId"

definition getAllDocuments :: "DocumentStore \<Rightarrow> Document list" where
  "getAllDocuments store = cachedDocuments store"

definition getRevisions :: "DocumentStore \<Rightarrow> string \<Rightarrow> DocumentRevision list" where
  "getRevisions store docId =
     (case map_of (revisions store) docId of None \<Rightarrow> [] | Some revs \<Rightarrow> revs)"

definition subscribe :: "nat \<Rightarrow> DocumentStore \<Rightarrow> DocumentStore" where
  "subscribe listener store =
     (if listener \<in> set (listeners store) then store
      else store\<lparr>listeners := listeners store @ [listener]\<rparr>)"

definition unsubscribe :: "nat \<Rightarrow> DocumentStore \<Rightarrow> DocumentStore" where
  "unsubscribe listener store = store\<lparr>listeners := removeAll listener (listeners store)\<rparr>"

definition notifyListeners :: "DocumentStore \<Rightarrow> DocumentStore" where
  "notifyListeners store =
     store\<lparr>cachedDocuments := filter (\<lambda>d. \<not> doc_deleted d) (map snd (documents store)),
            invoked := invoked store @ listeners store\<rparr>"

definition clear :: "DocumentStore \<Rightarrow> DocumentStore" where
  "clear store = notifyListeners (store\<lparr>documents := [], revisions := []\<rparr>)"

text \<open>The set of parent identifiers of the history and of the new revision.\<close>

definition referencedRevisions ::
    "DocumentRevision list \<Rightarrow> DocumentRevision \<Rightarrow> string option list" where
  "referencedRevisions docRevisions revision =
     concat (map prevRevisionIds docRevisions) @ prevRevisionIds revision"

definition chainReason :: "string \<Rightarrow> jsnum \<Rightarrow> string" where
  "chainReason dTag gen =
     ''Document '' @ [CHR 0x22] @ dTag @ [CHR 0x22] @ '' already has a revision at generation ''
       @ numberToString gen @ '' that is part of the revision chain''"

definition winningReason :: "string \<Rightarrow> jsnum \<Rightarrow> string" where
  "winningReason dTag gen =
     ''Document '' @ [CHR 0x22] @ dTag @ [CHR 0x22]
       @ '' already has a winning revision at generation '' @ numberToString gen"

text \<open>
  The loop over the history that looks for a reason to reject the new revision; it returns
  at the first one.
\<close>

fun findConflict ::
    "string \<Rightarrow> string option list \<Rightarrow> ParsedRevisionId \<Rightarrow> DocumentRevision list
      \<Rightarrow> string option" where
  "findConflict dTag referenced newParsed [] = None"
| "findConflict dTag referenced newParsed (existing # rest) =
     (let existingParsed = parseRevisionId (revisionId existing) in
      if js_eq (generation existingParsed) (generation newParsed)
      then (if Some (revisionId existing) \<in> set referenced
            then Some (chainReason dTag (generation newParsed))
            else if str_less (hash newParsed) (hash existingParsed)
            then Some (winningReason dTag (generation newParsed))
            else findConflict dTag referenced newParsed rest)
      else findConflict dTag referenced newParsed rest)"

text \<open>The predicate of the pruning \<open>filter\<close>.\<close>

definition keepExisting ::
    "string option list \<Rightarrow> ParsedRevisionId \<Rightarrow> DocumentRevision \<Rightarrow> bool" where
  "keepExisting referenced newParsed existing =
     (let existingParsed = parseRevisionId (revisionId existing) in
      if js_eq (generation existingParsed) (generation newParsed)
      then (if Some (revisionId existing) \<in> set referenced then True
            else str_less (hash newParsed) (hash existingParsed))
      else True)"

text \<open>
  \<open>addRevision\<close>. The array \<open>filtered\<close> is stored in the map and then handed to
  \<open>buildDocument\<close>, which sorts that same array: the history the store holds afterwards
  is the sorted one.
\<close>

definition addRevision ::
    "(string \<Rightarrow> string \<Rightarrow> int) \<Rightarrow> Event \<Rightarrow> DocumentStore \<Rightarrow> AddResult \<times> DocumentStore" where
  "addRevision localeCompare event store =
     (case eventToRevision event of
        None \<Rightarrow> (reject ''Invalid event format'', store)
      | Some revision \<Rightarrow>
          (case tag_value ''d'' (ev_tags event) of
             None \<Rightarrow> (reject ''Missing document ID (d tag)'', store)
           | Some dTag \<Rightarrow>
               if dTag = [] then (reject ''Missing document ID (d tag)'', store)
               else
                 let store1 = (if map_of (revisions store) dTag = None
                               then store\<lparr>revisions := map_set dTag [] (revisions store)\<rparr>
                               else store);
                     docRevisions = getRevisions store1 dTag
                 in if list_ex (\<lambda>r. eventId r = ev_id event) docRevisions
                    then (accept, store1)
                    else
                      let referenced = referencedRevisions docRevisions revision;
                          newParsed = parseRevisionId (revisionId revision)
                      in (case findConflict dTag referenced newParsed docRevisions of
                            Some why \<Rightarrow> (reject why, store1)
                          | None \<Rightarrow>
                              let filtered = filter (keepExisting referenced newParsed) docRevisions
                                               @ [revision];
                                  built = buildDocument localeCompare dTag filtered;
                                  store2 = store1\<lparr>revisions :=
                                                    map_set dTag (snd built) (revisions store1)\<rparr>;
                                  store3 = (case fst built of
                                              Some doc \<Rightarrow>
                                                store2\<lparr>documents :=
                                                          map_set dTag doc (documents store2)\<rparr>
                                            | None \<Rightarrow> store2)
                              in (accept, notifyListeners store3))))"

text \<open>Admitting a sequence of events, one after the other.\<close>

definition addRevisions ::
    "(string \<Rightarrow> string \<Rightarrow> int) \<Rightarrow> Event list \<Rightarrow> DocumentStore \<Rightarrow> DocumentStore" where
  "addRevisions localeCompare events store =
     fold (\<lambda>event s. snd (addRevision localeCompare event s)) events store"

subsection \<open>Revision identifiers\<close>

text \<open>
  \<open>if (!prevRev)\<close> holds for \<open>null\<close> and for the empty string. \<open>substring(0, 32)\<close>
  is \<open>take 32\<close>.
\<close>

definition computeRevisionHash :: "string option \<Rightarrow> string \<Rightarrow> string" where
  "computeRevisionHash prevRev cont =
     (let contentHash = bytesToHex (sha256 (encode cont)) in
      case prevRev of
        None \<Rightarrow> take 32 contentHash
      | Some p \<Rightarrow>
          if p = [] then take 32 contentHash
          else let combined = p @ '':'' @ contentHash;
                   fullHash = bytesToHex (sha256 (encode combined))
               in take 32 fullHash)"

definition createRevisionId :: "jsnum \<Rightarrow> string option \<Rightarrow> string \<Rightarrow> string" where
  "createRevisionId gen prevRev cont =
     numberToString gen @ ''-'' @ computeRevisionHash prevRev cont"

section \<open>The document operations of the synchronisation hook\<close>

text \<open>
  \<open>publish\<close> signs an event template, sends the event and waits for the relay's
  acknowledgement; it returns the finalized event or throws. It belongs to the relay
  client and to the signing library and is a parameter here: \<open>Inl\<close> carries the message
  of the error thrown. The event it returns is admitted into the store as the store is
  when the call returns.
\<close>

record EventTemplate =
  tpl_kind :: int
  tpl_content :: string
  tpl_tags :: "string list list"

definition DOC_KIND :: int where
  "DOC_KIND = 40001"

text \<open>\<open>result.reason || "Revision rejected"\<close>\<close>

definition rejectionMessage :: "AddResult \<Rightarrow> string" where
  "rejectionMessage result =
     (if truthy (reason result) then (case reason result of Some why \<Rightarrow> why | None \<Rightarrow> [])
      else ''Revision rejected'')"

definition publishAndAdmit ::
    "(string \<Rightarrow> string \<Rightarrow> int) \<Rightarrow> (EventTemplate \<Rightarrow> string + Event) \<Rightarrow> EventTemplate
      \<Rightarrow> string \<Rightarrow> DocumentStore \<Rightarrow> (string + Document option) \<times> DocumentStore" where
  "publishAndAdmit localeCompare publish template docId store =
     (case publish template of
        Inl err \<Rightarrow> (Inl err, store)
      | Inr event \<Rightarrow>
          (case addRevision localeCompare event store of
             (result, store') \<Rightarrow>
               if \<not> accepted result then (Inl (rejectionMessage result), store')
               else (Inr (getDocument store' docId), store')))"

definition createDocument ::
    "(string \<Rightarrow> string \<Rightarrow> int) \<Rightarrow> string option \<Rightarrow> (EventTemplate \<Rightarrow> string + Event)
      \<Rightarrow> string \<Rightarrow> string \<Rightarrow> DocumentStore \<Rightarrow> (string + Document option) \<times> DocumentStore" where
  "createDocument localeCompare publicKey publish docId cont store =
     (if \<not> truthy publicKey then (Inl ''No public key available'', store)
      else
        let revId = createRevisionId (Num 1) None cont;
            tags = createDocumentTags docId revId [] False
        in publishAndAdmit localeCompare publish
             \<lparr>tpl_kind = DOC_KIND, tpl_content = cont, tpl_tags = tags\<rparr> docId store)"

definition updateDocument ::
    "(string \<Rightarrow> string \<Rightarrow> int) \<Rightarrow> string option \<Rightarrow> (EventTemplate \<Rightarrow> string + Event)
      \<Rightarrow> string \<Rightarrow> string \<Rightarrow> DocumentStore \<Rightarrow> (string + Document option) \<times> DocumentStore" where
  "updateDocument localeCompare publicKey publish docId cont store =
     (if \<not> truthy publicKey then (Inl ''No public key available'', store)
      else
        (case getDocument store docId of
           None \<Rightarrow> (Inl ''Document not found'', store)
         | Some currentDoc \<Rightarrow>
             let currentRevision = parseRevisionId (doc_revisionId currentDoc);
                 newGeneration = jsnum_add (generation currentRevision) (Num 1);
                 revId = createRevisionId newGeneration (Some (doc_revisionId currentDoc)) cont;
                 tags = createDocumentTags docId revId [doc_revisionId currentDoc] False
             in publishAndAdmit localeCompare publish
                  \<lparr>tpl_kind = DOC_KIND, tpl_content = cont, tpl_tags = tags\<rparr> docId store))"

section \<open>The changes-feed query of the relay client\<close>

text \<open>
  \<open>fetchChanges\<close> returns a promise and leaves its \<open>resolve\<close>/\<open>reject\<close> pair in the
  single slot \<open>pendingChangesRef\<close>. The promises handed out are numbered in the order
  of the calls; the slot holds the number of the promise whose pair it contains. The
  message handler and the timers are the other two events that touch the slot.
\<close>

record ChangesOptions =
  since :: "int option"
  limit :: "int option"
  kinds :: "int list option"
  authors :: "string list option"

record ChangesResult =
  changes :: "(int \<times> Event) list"
  lastSeq :: int

datatype promise = Pending | Fulfilled ChangesResult | Rejected string

record RelayClient =
  wsOpen :: bool
  pendingChanges :: "nat option"
  promises :: "promise list"
  sent :: "ChangesOptions list"

text \<open>Settling a promise a second time has no effect.\<close>

definition settle :: "nat \<Rightarrow> promise \<Rightarrow> promise list \<Rightarrow> promise list" where
  "settle p v ps = (if p < length ps \<and> ps ! p = Pending then ps[p := v] else ps)"

text \<open>
  The call: an \<open>async\<close> function that throws returns a rejected promise. The result is the
  number of the promise returned and the client afterwards.
\<close>

definition fetchChanges :: "ChangesOptions \<Rightarrow> RelayClient \<Rightarrow> nat \<times> RelayClient" where
  "fetchChanges options c =
     (if \<not> wsOpen c
      then (length (promises c),
            c\<lparr>promises := promises c @ [Rejected ''Not connected to relay'']\<rparr>)
      else (length (promises c),
            c\<lparr>promises := promises c @ [Pending],
              pendingChanges := Some (length (promises c)),
              sent := sent c @ [options]\<rparr>))"

text \<open>The timer that the call with promise \<open>p\<close> started fires, 30 seconds later.\<close>

definition changesTimeout :: "nat \<Rightarrow> RelayClient \<Rightarrow> RelayClient" where
  "changesTimeout p c =
     (if pendingChanges c \<noteq> None
      then c\<lparr>pendingChanges := None,
             promises := settle p (Rejected ''Changes request timeout'') (promises c)\<rparr>
      else c)"

text \<open>The message \<open>["CHANGES", result]\<close> arrives.\<close>

definition handleChanges :: "ChangesResult \<Rightarrow> RelayClient \<Rightarrow> RelayClient" where
  "handleChanges result c =
     (case pendingChanges c of
        Some q \<Rightarrow> c\<lparr>promises := settle q (Fulfilled result) (promises c), pendingChanges := None\<rparr>
      | None \<Rightarrow> c)"

section \<open>Notions used in the statements\<close>

text \<open>The document that mirrors a revision: what \<open>buildDocument\<close> makes of the winner.\<close>

definition documentOf :: "string \<Rightarrow> DocumentRevision \<Rightarrow> Document" where
  "documentOf docId winning =
     \<lparr>doc_id = docId, doc_content = content winning, doc_revisionId = revisionId winning,
      doc_prevRevisionIds = prevRevisionIds winning, doc_createdAt = createdAt winning,
      doc_eventId = eventId winning, doc_deleted = deleted winning\<rparr>"

text \<open>The array \<open>filtered\<close> of \<open>addRevision\<close> after the \<open>push\<close>.\<close>

definition pruned :: "DocumentRevision list \<Rightarrow> DocumentRevision \<Rightarrow> DocumentRevision list" where
  "pruned h r =
     filter (keepExisting (referencedRevisions h r) (parseRevisionId (revisionId r))) h @ [r]"

text \<open>
  The effect of one admission on what the store holds for one document: its history and
  its materialized document.
\<close>

definition admitted ::
    "(string \<Rightarrow> string \<Rightarrow> int) \<Rightarrow> string \<Rightarrow> DocumentRevision
      \<Rightarrow> DocumentRevision list \<times> Document option
      \<Rightarrow> DocumentRevision list \<times> Document option" where
  "admitted lc d r before =
     (let h = fst before in
      if list_ex (\<lambda>x. eventId x = eventId r) h
         \<or> findConflict d (referencedRevisions h r) (parseRevisionId (revisionId r)) h \<noteq> None
      then before
      else (array_sort (compareRevisions lc) (pruned h r),
            Some (documentOf d (hd (array_sort (compareRevisions lc) (pruned h r))))))"

text \<open>
  A collation for the examples: the order of the code units, which is how
  \<open>localeCompare\<close> orders strings of digits and lower-case letters \<open>a\<close> to \<open>f\<close>.
\<close>

definition codeUnitCompare :: "string \<Rightarrow> string \<Rightarrow> int" where
  "codeUnitCompare a b = (if str_less a b then - 1 else if str_less b a then 1 else 0)"

text \<open>
  Example events of document \<open>doc-1\<close>: a first revision, two rival second revisions
  that name it as their parent, and a third revision on top of the first rival.
\<close>

definition docEvent :: "string \<Rightarrow> string \<Rightarrow> string list \<Rightarrow> string \<Rightarrow> Event" where
  "docEvent i revId parents cont =
     \<lparr>ev_id = i, ev_kind = DOC_KIND,
      ev_tags = createDocumentTags ''doc-1'' revId parents False,
      ev_content = cont, ev_created_at = 1700000000\<rparr>"

definition docRevision :: "string \<Rightarrow> string \<Rightarrow> string list \<Rightarrow> string \<Rightarrow> DocumentRevision" where
  "docRevision i revId parents cont =
     \<lparr>revisionId = revId, content = cont, prevRevisionIds = map Some parents,
      createdAt = 1700000000, eventId = i, deleted = False\<rparr>"

definition event1 :: Event where
  "event1 = docEvent ''e1'' ''1-aa'' [] ''one''"

definition event2 :: Event where
  "event2 = docEvent ''e2'' ''2-bb'' [''1-aa''] ''two''"

definition event3 :: Event where
  "event3 = docEvent ''e3'' ''2-cc'' [''1-aa''] ''three''"

definition event4 :: Event where
  "event4 = docEvent ''e4'' ''3-dd'' [''2-bb''] ''four''"

definition revision1 :: DocumentRevision where
  "revision1 = docRevision ''e1'' ''1-aa'' [] ''one''"

definition revision2 :: DocumentRevision where
  "revision2 = docRevision ''e2'' ''2-bb'' [''1-aa''] ''two''"

definition revision3 :: DocumentRevision where
  "revision3 = docRevision ''e3'' ''2-cc'' [''1-aa''] ''three''"

definition revision4 :: DocumentRevision where
  "revision4 = docRevision ''e4'' ''3-dd'' [''2-bb''] ''four''"

text \<open>An event outside the range of document kinds, with both tags present.\<close>

definition noteEvent :: Event where
  "noteEvent =
     \<lparr>ev_id = ''e0'', ev_kind = 1, ev_tags = [[''d'', ''doc-1''], [''i'', ''1-aa'']],
      ev_content = ''note'', ev_created_at = 1700000000\<rparr>"

text \<open>
  The event that the signing makes of a template: it keeps the kind, the tags and the
  content, and adds the identifier and the time stamp.
\<close>

definition finalizeEvent :: "string \<Rightarrow> int \<Rightarrow> EventTemplate \<Rightarrow> Event" where
  "finalizeEvent i t tpl =
     \<lparr>ev_id = i, ev_kind = tpl_kind tpl, ev_tags = tpl_tags tpl,
      ev_content = tpl_content tpl, ev_created_at = t\<rparr>"

text \<open>
  A publisher for the examples: every event is acknowledged, and the content stands for
  the identifier.
\<close>

definition echoPublish :: "EventTemplate \<Rightarrow> string + Event" where
  "echoPublish tpl = Inr (finalizeEvent (tpl_content tpl) 1700000000 tpl)"

text \<open>A connected relay client that has not asked for anything yet, and two queries.\<close>

definition openClient :: RelayClient where
  "openClient = \<lparr>wsOpen = True, pendingChanges = None, promises = [], sent = []\<rparr>"

definition query0 :: ChangesOptions where
  "query0 = \<lparr>since = Some 0, limit = None, kinds = Some [40001], authors = None\<rparr>"

definition query5 :: ChangesOptions where
  "query5 = \<lparr>since = Some 5, limit = None, kinds = Some [40001], authors = None\<rparr>"

definition noChanges :: ChangesResult where
  "noChanges = \<lparr>changes = [], lastSeq = 5\<rparr>"

section \<open>Basic facts\<close>

lemma map_of_map_set_same: "map_of (map_set k v m) k = Some v"
  by (induction m) auto

lemma map_of_map_set_other: "k' \<noteq> k \<Longrightarrow> map_of (map_set k v m) k' = map_of m k'"
  by (induction m) auto

lemma map_set_map_set: "map_set k v (map_set k w m) = map_set k v m"
  by (induction m) auto

lemma set_insert_by: "set (insert_by cmp x ys) = insert x (set ys)"
  by (induction ys) auto

lemma set_array_sort: "set (array_sort cmp xs) = set xs"
  unfolding array_sort_def by (induction xs) (auto simp: set_insert_by)

lemma length_insert_by: "length (insert_by cmp x ys) = Suc (length ys)"
  by (induction ys) auto

lemma length_array_sort: "length (array_sort cmp xs) = length xs"
  unfolding array_sort_def by (induction xs) (auto simp: length_insert_by)

lemma array_sort_nonempty: "xs \<noteq> [] \<Longrightarrow> array_sort cmp xs \<noteq> []"
  using length_array_sort [of cmp xs] by (cases "array_sort cmp xs") auto

lemma index_0_nonempty: "xs \<noteq> [] \<Longrightarrow> index xs 0 = Some (hd xs)"
  by (cases xs) auto

lemma str_less_asym: "str_less a b \<Longrightarrow> \<not> str_less b a"
  by (induction a b rule: str_less.induct) (auto split: if_splits)

lemma of_char_less_total:
  "a \<noteq> b \<Longrightarrow> (of_char a :: nat) < of_char b \<or> (of_char b :: nat) < of_char a"
  using of_char_eq_iff [of a b, where ?'a = nat] by linarith

lemma str_less_total: "a \<noteq> b \<Longrightarrow> str_less a b \<or> str_less b a"
  by (induction a b rule: str_less.induct) (auto split: if_splits dest: of_char_less_total)

lemma findConflict_Some_nonempty: "findConflict d refs np h = Some why \<Longrightarrow> h \<noteq> []"
  by (cases h) auto

lemma findConflict_referenced:
  assumes "e \<in> set h"
      and "js_eq (generation (parseRevisionId (revisionId e))) (generation np)"
      and "Some (revisionId e) \<in> set refs"
  shows "findConflict d refs np h \<noteq> None"
  using assms by (induction h) (auto simp: Let_def)

lemma eventToRevision_Some_dTag:
  "eventToRevision ev = Some r \<Longrightarrow> \<exists>d. tag_value ''d'' (ev_tags ev) = Some d \<and> d \<noteq> []"
  by (cases "tag_value ''d'' (ev_tags ev)")
     (auto simp: eventToRevision_def Let_def split: if_splits option.splits)

lemma eventToRevision_Some_eventId: "eventToRevision ev = Some r \<Longrightarrow> eventId r = ev_id ev"
  by (auto simp: eventToRevision_def Let_def split: if_splits option.splits)

lemma getRevisions_map_set_empty:
  "map_of (revisions s) d = None \<Longrightarrow>
   getRevisions (s\<lparr>revisions := map_set d [] (revisions s)\<rparr>) d = []"
  by (simp add: getRevisions_def map_of_map_set_same)

lemma buildDocument_nonempty:
  "revs \<noteq> [] \<Longrightarrow>
   buildDocument lc d revs =
     (Some (documentOf d (hd (array_sort (compareRevisions lc) revs))),
      array_sort (compareRevisions lc) revs)"
  by (simp add: buildDocument_def selectWinningRevision_def Let_def documentOf_def
        index_0_nonempty array_sort_nonempty)

section \<open>What an admission does\<close>

text \<open>
  \<open>addRevision\<close> on an event that decodes to the revision \<open>r\<close> of the document \<open>d\<close>:
  a repeated event identifier is accepted and nothing changes, a conflict is rejected and
  nothing changes, and otherwise the sorted pruned history and the document of its first
  element are stored and the listeners are called.
\<close>

lemma addRevision_valid:
  assumes "eventToRevision ev = Some r" and "tag_value ''d'' (ev_tags ev) = Some d"
  shows "addRevision lc ev s =
     (if list_ex (\<lambda>x. eventId x = ev_id ev) (getRevisions s d) then (accept, s)
      else (case findConflict d (referencedRevisions (getRevisions s d) r)
                  (parseRevisionId (revisionId r)) (getRevisions s d) of
              Some why \<Rightarrow> (reject why, s)
            | None \<Rightarrow>
                (accept,
                 notifyListeners
                   (s\<lparr>revisions := map_set d (array_sort (compareRevisions lc)
                                     (pruned (getRevisions s d) r)) (revisions s),
                      documents := map_set d
                          (documentOf d (hd (array_sort (compareRevisions lc)
                                     (pruned (getRevisions s d) r)))) (documents s)\<rparr>))))"
proof -
  from assms have d: "d \<noteq> []"
    using eventToRevision_Some_dTag by fastforce
  show ?thesis
  proof (cases "map_of (revisions s) d")
    case None
    then have h: "getRevisions s d = []" by (simp add: getRevisions_def)
    have h1: "getRevisions (s\<lparr>revisions := map_set d [] (revisions s)\<rparr>) d = []"
      using None by (rule getRevisions_map_set_empty)
    show ?thesis
      using assms d None h h1
      by (simp add: addRevision_def Let_def buildDocument_nonempty map_set_map_set pruned_def)
  next
    case (Some h)
    then have h: "getRevisions s d = h" by (simp add: getRevisions_def)
    show ?thesis
      using assms d Some h
      by (simp add: addRevision_def Let_def buildDocument_nonempty pruned_def
            split: option.splits)
  qed
qed

lemma observe_addRevision:
  assumes "eventToRevision ev = Some r" and "tag_value ''d'' (ev_tags ev) = Some d"
  shows "(getRevisions (snd (addRevision lc ev s)) d, getDocument (snd (addRevision lc ev s)) d)
           = admitted lc d r (getRevisions s d, getDocument s d)"
  using eventToRevision_Some_eventId [OF assms(1)]
  by (auto simp: addRevision_valid [OF assms] admitted_def Let_def getRevisions_def
        getDocument_def notifyListeners_def map_of_map_set_same split: option.splits)

lemma addRevision_rejected_unchanged:
  assumes "\<not> accepted (fst (addRevision lc ev s))"
  shows "snd (addRevision lc ev s) = s \<and> reason (fst (addRevision lc ev s)) \<noteq> None"
proof (cases "eventToRevision ev")
  case None
  then show ?thesis by (simp add: addRevision_def reject_def)
next
  case (Some r)
  then obtain d where d: "tag_value ''d'' (ev_tags ev) = Some d"
    using eventToRevision_Some_dTag by blast
  from assms show ?thesis
    by (auto simp: addRevision_valid [OF Some d] accept_def reject_def
          split: if_splits option.splits)
qed

text \<open>Evaluation of the definitions on concrete events.\<close>

lemmas parse_defs = parseRevisionId_def parseInt10_def is_digit_def jsnum_of_int_def
  round_f64_def ascii_space_def space2_def space3_def Let_def

lemmas store_defs = addRevisions_def addRevision_def eventToRevision_def tag_value_def
  createDocumentTags_def DOC_KIND_def newDocumentStore_def getRevisions_def getDocument_def
  referencedRevisions_def keepExisting_def buildDocument_def selectWinningRevision_def
  array_sort_def compareRevisions_def js_eq_def jsnum_sub_def notifyListeners_def accept_def
  reject_def chainReason_def winningReason_def nat_to_string_def decimal.simps digit_char_def

lemmas example_defs = docEvent_def docRevision_def event1_def event2_def event3_def event4_def
  revision1_def revision2_def revision3_def revision4_def noteEvent_def codeUnitCompare_def

lemma eventToRevision_examples:
  "eventToRevision event1 = Some revision1"
  "eventToRevision event2 = Some revision2"
  "eventToRevision event3 = Some revision3"
  "eventToRevision event4 = Some revision4"
  by (simp_all add: example_defs store_defs)

lemma tag_value_examples:
  "tag_value ''d'' (ev_tags event1) = Some ''doc-1''"
  "tag_value ''d'' (ev_tags event2) = Some ''doc-1''"
  "tag_value ''d'' (ev_tags event3) = Some ''doc-1''"
  "tag_value ''d'' (ev_tags event4) = Some ''doc-1''"
  by (simp_all add: example_defs store_defs)

lemma parseRevisionId_examples:
  "parseRevisionId (revisionId revision1) = \<lparr>generation = Num 1, hash = ''aa''\<rparr>"
  "parseRevisionId (revisionId revision2) = \<lparr>generation = Num 2, hash = ''bb''\<rparr>"
  "parseRevisionId (revisionId revision3) = \<lparr>generation = Num 2, hash = ''cc''\<rparr>"
  "parseRevisionId (revisionId revision4) = \<lparr>generation = Num 3, hash = ''dd''\<rparr>"
  by (simp_all add: example_defs parse_defs)

section \<open>Admission: rejections\<close>

text \<open>
  Claim C10. \<open>addRevision\<close> rejects every event whose kind is below 40000 or at least
  50000 with the reason "Invalid event format" and leaves the store unchanged, whatever
  tags the event carries: the range of kinds is a precondition of admission besides the
  tags.
\<close>

theorem addRevision_kind_range:
  assumes "ev_kind ev < 40000 \<or> ev_kind ev \<ge> 50000"
  shows "addRevision lc ev s = (\<lparr>accepted = False, reason = Some ''Invalid event format''\<rparr>, s)"
  using assms by (auto simp: addRevision_def eventToRevision_def reject_def)

theorem addRevision_kind_range_witness:
  "(ev_kind noteEvent < 40000 \<or> ev_kind noteEvent \<ge> 50000) \<and>
   tag_value ''d'' (ev_tags noteEvent) = Some ''doc-1'' \<and>
   tag_value ''i'' (ev_tags noteEvent) = Some ''1-aa'' \<and>
   addRevision codeUnitCompare noteEvent newDocumentStore =
     (\<lparr>accepted = False, reason = Some ''Invalid event format''\<rparr>, newDocumentStore)"
proof -
  have k: "ev_kind noteEvent < 40000 \<or> ev_kind noteEvent \<ge> 50000"
    by (simp add: noteEvent_def)
  show ?thesis
    using k addRevision_kind_range [OF k, of codeUnitCompare newDocumentStore]
    by (simp add: noteEvent_def tag_value_def)
qed

text \<open>
  Claim C6. When \<open>addRevision\<close> returns \<open>accepted: false\<close>, the store is left as it
  was: the document and the history of every identifier are unchanged and no listener
  has been called. The rejection is the value returned, with its reason; \<open>addRevision\<close>
  has no other way out (the function has no \<open>throw\<close>, and its model is total).
\<close>

theorem rejection_leaves_store_unchanged:
  assumes "\<not> accepted (fst (addRevision lc ev s))"
  shows "snd (addRevision lc ev s) = s
       \<and> getDocument (snd (addRevision lc ev s)) docId = getDocument s docId
       \<and> getRevisions (snd (addRevision lc ev s)) docId = getRevisions s docId
       \<and> invoked (snd (addRevision lc ev s)) = invoked s
       \<and> reason (fst (addRevision lc ev s)) \<noteq> None"
  using addRevision_rejected_unchanged [OF assms] by simp

text \<open>The store that has admitted \<open>event1\<close> and \<open>event3\<close>, with one listener.\<close>

lemma store13:
  "addRevisions codeUnitCompare [event1, event3] (subscribe 7 newDocumentStore) =
     \<lparr>documents = [(''doc-1'', documentOf ''doc-1'' revision3)],
      revisions = [(''doc-1'', [revision3, revision1])],
      listeners = [7],
      cachedDocuments = [documentOf ''doc-1'' revision3],
      invoked = [7, 7]\<rparr>"
  by (simp add: example_defs store_defs parse_defs subscribe_def documentOf_def)

lemma event2_loses:
  "addRevision codeUnitCompare event2
     (addRevisions codeUnitCompare [event1, event3] (subscribe 7 newDocumentStore)) =
   (reject (winningReason ''doc-1'' (Num 2)),
    addRevisions codeUnitCompare [event1, event3] (subscribe 7 newDocumentStore))"
  unfolding store13
  by (simp add: addRevision_valid [OF eventToRevision_examples(2) tag_value_examples(2)]
        getRevisions_def)
     (simp add: example_defs parse_defs referencedRevisions_def js_eq_def)


theorem rejection_leaves_store_unchanged_witness:
  "\<not> accepted (fst (addRevision codeUnitCompare event2
        (addRevisions codeUnitCompare [event1, event3] (subscribe 7 newDocumentStore))))
   \<and> snd (addRevision codeUnitCompare event2
        (addRevisions codeUnitCompare [event1, event3] (subscribe 7 newDocumentStore)))
       = addRevisions codeUnitCompare [event1, event3] (subscribe 7 newDocumentStore)
   \<and> invoked (snd (addRevision codeUnitCompare event2
        (addRevisions codeUnitCompare [event1, event3] (subscribe 7 newDocumentStore))))
       = [7, 7]
   \<and> reason (fst (addRevision codeUnitCompare event2
        (addRevisions codeUnitCompare [event1, event3] (subscribe 7 newDocumentStore))))
       \<noteq> None"
proof -
  let ?s = "addRevisions codeUnitCompare [event1, event3] (subscribe 7 newDocumentStore)"
  have r: "\<not> accepted (fst (addRevision codeUnitCompare event2 ?s))"
    by (simp add: event2_loses reject_def)
  have i: "invoked ?s = [7, 7]"
    by (simp add: store13)
  show ?thesis
    using r i rejection_leaves_store_unchanged [OF r, of "''doc-1''"] by simp
qed

section \<open>Admission: a repeated event\<close>

text \<open>
  Claim C3, as stated: for every event and every store, a second \<open>addRevision\<close> of the
  same event is detected through the event identifier and reports accepted. It fails for
  an event that the first call rejects: the losing rival \<open>event2\<close> is rejected by the
  second call as by the first.
\<close>

theorem second_call_rejected_counterexample:
  "\<not> accepted (fst (addRevision codeUnitCompare event2
        (snd (addRevision codeUnitCompare event2
           (addRevisions codeUnitCompare [event1, event3] (subscribe 7 newDocumentStore))))))"
  by (simp add: event2_loses reject_def)

text \<open>
  Claim C3, amended. For every event and every store, a second \<open>addRevision\<close> of the
  same event leaves the store exactly as the first call left it: the documents, the
  histories (no entry is added twice) and the listeners' calls. If the first call reported
  accepted, the history of the event's document then holds an entry with the event's
  identifier, and the second call reports accepted, without a reason; if the first call
  rejected the event, the second returns the same rejection.
\<close>

theorem addRevision_idempotent:
  "snd (addRevision lc ev (snd (addRevision lc ev s))) = snd (addRevision lc ev s) \<and>
   (accepted (fst (addRevision lc ev s)) \<longrightarrow>
      fst (addRevision lc ev (snd (addRevision lc ev s))) = \<lparr>accepted = True, reason = None\<rparr>
      \<and> (\<exists>d. tag_value ''d'' (ev_tags ev) = Some d
             \<and> list_ex (\<lambda>r. eventId r = ev_id ev) (getRevisions (snd (addRevision lc ev s)) d))) \<and>
   (\<not> accepted (fst (addRevision lc ev s)) \<longrightarrow>
      fst (addRevision lc ev (snd (addRevision lc ev s))) = fst (addRevision lc ev s))"
proof (cases "eventToRevision ev")
  case None
  then show ?thesis by (simp add: addRevision_def reject_def)
next
  case (Some r)
  then obtain d where d: "tag_value ''d'' (ev_tags ev) = Some d"
    using eventToRevision_Some_dTag by blast
  note v = addRevision_valid [OF Some d]
  have rid: "eventId r = ev_id ev" using Some by (rule eventToRevision_Some_eventId)
  let ?h = "getRevisions s d"
  show ?thesis
  proof (cases "list_ex (\<lambda>x. eventId x = ev_id ev) ?h")
    case True
    with d show ?thesis by (simp add: v accept_def)
  next
    case nodup: False
    show ?thesis
    proof (cases "findConflict d (referencedRevisions ?h r) (parseRevisionId (revisionId r)) ?h")
      case (Some why)
      with nodup show ?thesis by (simp add: v reject_def)
    next
      case None
      let ?s1 = "snd (addRevision lc ev s)"
      have h1: "getRevisions ?s1 d = array_sort (compareRevisions lc) (pruned ?h r)"
        using nodup None
        by (simp add: v [of lc s] getRevisions_def notifyListeners_def map_of_map_set_same)
      have "r \<in> set (getRevisions ?s1 d)"
        unfolding h1 by (simp add: set_array_sort pruned_def)
      with rid have dup: "list_ex (\<lambda>x. eventId x = ev_id ev) (getRevisions ?s1 d)"
        by (auto simp: list_ex_iff)
      have acc: "accepted (fst (addRevision lc ev s))"
        using nodup None by (simp add: v [of lc s] accept_def)
      from dup acc d show ?thesis
        by (simp add: v [of lc ?s1] accept_def)
    qed
  qed
qed

lemma event2_admitted:
  "addRevision codeUnitCompare event2
     (addRevisions codeUnitCompare [event1] (subscribe 7 newDocumentStore)) =
   (accept,
    \<lparr>documents = [(''doc-1'', documentOf ''doc-1'' revision2)],
     revisions = [(''doc-1'', [revision2, revision1])],
     listeners = [7],
     cachedDocuments = [documentOf ''doc-1'' revision2],
     invoked = [7, 7]\<rparr>)"
  by (simp add: example_defs store_defs parse_defs subscribe_def documentOf_def)

theorem addRevision_idempotent_witness:
  "accepted (fst (addRevision codeUnitCompare event2
       (addRevisions codeUnitCompare [event1] (subscribe 7 newDocumentStore))))
   \<and> addRevision codeUnitCompare event2
       (snd (addRevision codeUnitCompare event2
          (addRevisions codeUnitCompare [event1] (subscribe 7 newDocumentStore))))
     = (\<lparr>accepted = True, reason = None\<rparr>,
        \<lparr>documents = [(''doc-1'', documentOf ''doc-1'' revision2)],
         revisions = [(''doc-1'', [revision2, revision1])],
         listeners = [7],
         cachedDocuments = [documentOf ''doc-1'' revision2],
         invoked = [7, 7]\<rparr>)"
proof -
  let ?s = "addRevisions codeUnitCompare [event1] (subscribe 7 newDocumentStore)"
  have a: "accepted (fst (addRevision codeUnitCompare event2 ?s))"
    by (simp add: event2_admitted accept_def)
  show ?thesis
    using a addRevision_idempotent [of codeUnitCompare event2 ?s]
    by (simp add: event2_admitted prod_eq_iff)
qed

section \<open>Admission: the protected ancestor\<close>

text \<open>
  Claim C2. When an incoming revision \<open>n\<close> reaches the conflict check of \<open>addRevision\<close>
  (its event decodes, and its event identifier is not in the history) and the history
  holds a revision \<open>e\<close> of the generation of \<open>n\<close> whose identifier is in the referenced
  set (the parents named in the history or by \<open>n\<close>), then \<open>n\<close> is rejected and the store
  is unchanged, whatever the two hashes are. In particular, once a revision of
  generation 3 that names \<open>R2\<close> as its parent is in the history with \<open>R2\<close>, a later rival
  of generation 2 with a greater hash is rejected.
\<close>

theorem referenced_ancestor_protected:
  assumes "eventToRevision ev = Some n"
      and "tag_value ''d'' (ev_tags ev) = Some d"
      and "\<not> list_ex (\<lambda>x. eventId x = ev_id ev) (getRevisions s d)"
      and "e \<in> set (getRevisions s d)"
      and "js_eq (generation (parseRevisionId (revisionId e)))
                 (generation (parseRevisionId (revisionId n)))"
      and "Some (revisionId e) \<in> set (referencedRevisions (getRevisions s d) n)"
  shows "\<not> accepted (fst (addRevision lc ev s)) \<and> snd (addRevision lc ev s) = s"
proof -
  from findConflict_referenced [OF assms(4) assms(5) assms(6)]
  obtain why where "findConflict d (referencedRevisions (getRevisions s d) n)
      (parseRevisionId (revisionId n)) (getRevisions s d) = Some why"
    by blast
  with assms(3) show ?thesis
    by (simp add: addRevision_valid [OF assms(1) assms(2)] reject_def)
qed

lemma history124:
  "getRevisions (addRevisions codeUnitCompare [event1, event2, event4] newDocumentStore) ''doc-1''
     = [revision4, revision2, revision1]"
  by (simp add: example_defs store_defs parse_defs)

theorem referenced_ancestor_protected_witness:
  "eventToRevision event3 = Some revision3
   \<and> tag_value ''d'' (ev_tags event3) = Some ''doc-1''
   \<and> \<not> list_ex (\<lambda>x. eventId x = ev_id event3)
         (getRevisions (addRevisions codeUnitCompare [event1, event2, event4] newDocumentStore)
            ''doc-1'')
   \<and> revision2 \<in> set (getRevisions
         (addRevisions codeUnitCompare [event1, event2, event4] newDocumentStore) ''doc-1'')
   \<and> js_eq (generation (parseRevisionId (revisionId revision2)))
            (generation (parseRevisionId (revisionId revision3)))
   \<and> Some (revisionId revision2) \<in> set (referencedRevisions (getRevisions
         (addRevisions codeUnitCompare [event1, event2, event4] newDocumentStore) ''doc-1'')
         revision3)
   \<and> str_less (hash (parseRevisionId (revisionId revision2)))
               (hash (parseRevisionId (revisionId revision3)))
   \<and> \<not> accepted (fst (addRevision codeUnitCompare event3
         (addRevisions codeUnitCompare [event1, event2, event4] newDocumentStore)))
   \<and> snd (addRevision codeUnitCompare event3
         (addRevisions codeUnitCompare [event1, event2, event4] newDocumentStore))
       = addRevisions codeUnitCompare [event1, event2, event4] newDocumentStore"
proof -
  let ?s = "addRevisions codeUnitCompare [event1, event2, event4] newDocumentStore"
  have h3: "\<not> list_ex (\<lambda>x. eventId x = ev_id event3) (getRevisions ?s ''doc-1'')"
    by (simp add: history124) (simp add: example_defs)
  have h4: "revision2 \<in> set (getRevisions ?s ''doc-1'')"
    by (simp add: history124)
  have h5: "js_eq (generation (parseRevisionId (revisionId revision2)))
                  (generation (parseRevisionId (revisionId revision3)))"
    by (simp add: parseRevisionId_examples js_eq_def)
  have h6: "Some (revisionId revision2)
              \<in> set (referencedRevisions (getRevisions ?s ''doc-1'') revision3)"
    by (simp add: history124 referencedRevisions_def) (simp add: example_defs)
  have h7: "str_less (hash (parseRevisionId (revisionId revision2)))
                     (hash (parseRevisionId (revisionId revision3)))"
    by (simp add: parseRevisionId_examples)
  show ?thesis
    using eventToRevision_examples(3) tag_value_examples(3) h3 h4 h5 h6 h7
      referenced_ancestor_protected [OF eventToRevision_examples(3) tag_value_examples(3)
        h3 h4 h5 h6, of codeUnitCompare]
    by simp
qed

section \<open>Order independence\<close>

text \<open>
  Three revisions of one document: \<open>r1\<close> of generation 1 without parents, and the rivals
  \<open>r2\<close> and \<open>r3\<close> of generation 2 with \<open>r1\<close> as their only parent, where \<open>r3\<close> has
  the greater hash. In each of the six orders of arrival the history ends as \<open>r3\<close>
  followed by \<open>r1\<close>, and the document is the one of \<open>r3\<close>.
\<close>

lemma greater_rival_wins:
  assumes gen1: "generation (parseRevisionId (revisionId r1)) = Num 1"
      and gen2: "generation (parseRevisionId (revisionId r2)) = Num 2"
      and gen3: "generation (parseRevisionId (revisionId r3)) = Num 2"
      and par1: "prevRevisionIds r1 = []"
      and par2: "prevRevisionIds r2 = [Some (revisionId r1)]"
      and par3: "prevRevisionIds r3 = [Some (revisionId r1)]"
      and ids: "distinct [eventId r1, eventId r2, eventId r3]"
      and less: "str_less (hash (parseRevisionId (revisionId r2)))
                          (hash (parseRevisionId (revisionId r3)))"
  shows "admitted lc d r3 (admitted lc d r2 (admitted lc d r1 ([], doc0)))
           = ([r3, r1], Some (documentOf d r3))"
    and "admitted lc d r2 (admitted lc d r3 (admitted lc d r1 ([], doc0)))
           = ([r3, r1], Some (documentOf d r3))"
    and "admitted lc d r3 (admitted lc d r1 (admitted lc d r2 ([], doc0)))
           = ([r3, r1], Some (documentOf d r3))"
    and "admitted lc d r1 (admitted lc d r3 (admitted lc d r2 ([], doc0)))
           = ([r3, r1], Some (documentOf d r3))"
    and "admitted lc d r2 (admitted lc d r1 (admitted lc d r3 ([], doc0)))
           = ([r3, r1], Some (documentOf d r3))"
    and "admitted lc d r1 (admitted lc d r2 (admitted lc d r3 ([], doc0)))
           = ([r3, r1], Some (documentOf d r3))"
proof -
  have ne21: "revisionId r2 \<noteq> revisionId r1" using gen1 gen2 by auto
  have ne31: "revisionId r3 \<noteq> revisionId r1" using gen1 gen3 by auto
  have nless: "\<not> str_less (hash (parseRevisionId (revisionId r3)))
                            (hash (parseRevisionId (revisionId r2)))"
    using less by (rule str_less_asym)
  have s21: "jsnum_sub (Num 2) (Num 1) = Num 1" and s12: "jsnum_sub (Num 1) (Num 2) = Num (- 1)"
    by (simp_all add: jsnum_sub_def jsnum_of_int_def round_f64_def)
  have idn: "eventId r1 \<noteq> eventId r2" "eventId r2 \<noteq> eventId r1" "eventId r1 \<noteq> eventId r3"
    "eventId r3 \<noteq> eventId r1" "eventId r2 \<noteq> eventId r3" "eventId r3 \<noteq> eventId r2"
    using ids by auto
  note facts = idn admitted_def Let_def pruned_def keepExisting_def referencedRevisions_def
    array_sort_def compareRevisions_def js_eq_def gen1 gen2 gen3 par1 par2 par3 ne21 ne31
    less nless s21 s12
  show "admitted lc d r3 (admitted lc d r2 (admitted lc d r1 ([], doc0)))
          = ([r3, r1], Some (documentOf d r3))"
    by (simp add: facts)
  show "admitted lc d r2 (admitted lc d r3 (admitted lc d r1 ([], doc0)))
          = ([r3, r1], Some (documentOf d r3))"
    by (simp add: facts)
  show "admitted lc d r3 (admitted lc d r1 (admitted lc d r2 ([], doc0)))
          = ([r3, r1], Some (documentOf d r3))"
    by (simp add: facts)
  show "admitted lc d r1 (admitted lc d r3 (admitted lc d r2 ([], doc0)))
          = ([r3, r1], Some (documentOf d r3))"
    by (simp add: facts)
  show "admitted lc d r2 (admitted lc d r1 (admitted lc d r3 ([], doc0)))
          = ([r3, r1], Some (documentOf d r3))"
    by (simp add: facts)
  show "admitted lc d r1 (admitted lc d r2 (admitted lc d r3 ([], doc0)))
          = ([r3, r1], Some (documentOf d r3))"
    by (simp add: facts)
qed

lemma observe_three:
  assumes "eventToRevision a = Some ra" and "tag_value ''d'' (ev_tags a) = Some d"
      and "eventToRevision b = Some rb" and "tag_value ''d'' (ev_tags b) = Some d"
      and "eventToRevision c = Some rc" and "tag_value ''d'' (ev_tags c) = Some d"
  shows "(getRevisions (addRevisions lc [a, b, c] s) d, getDocument (addRevisions lc [a, b, c] s) d)
       = admitted lc d rc (admitted lc d rb (admitted lc d ra (getRevisions s d, getDocument s d)))"
  by (simp add: addRevisions_def observe_addRevision [OF assms(5) assms(6)]
        observe_addRevision [OF assms(3) assms(4)] observe_addRevision [OF assms(1) assms(2)])

text \<open>
  Claim C1. Let \<open>e1\<close>, \<open>e2\<close>, \<open>e3\<close> be three events (with different identifiers) of
  the document \<open>d\<close> that decode to \<open>r1\<close> of generation 1 without parents and to \<open>r2\<close>
  and \<open>r3\<close> of generation 2, each with \<open>r1\<close> as its only parent and with different
  hashes, and let the store hold no history for \<open>d\<close>. Admitting the three in any of the
  six orders of arrival ends in the same state of \<open>d\<close>: the document is the one of the
  rival with the greater hash, the history holds this winner and \<open>r1\<close>, and the loser is
  not in it.
\<close>

theorem order_independence:
  assumes ev1: "eventToRevision e1 = Some r1" and tag1: "tag_value ''d'' (ev_tags e1) = Some d"
      and ev2: "eventToRevision e2 = Some r2" and tag2: "tag_value ''d'' (ev_tags e2) = Some d"
      and ev3: "eventToRevision e3 = Some r3" and tag3: "tag_value ''d'' (ev_tags e3) = Some d"
      and gen1: "generation (parseRevisionId (revisionId r1)) = Num 1"
      and gen2: "generation (parseRevisionId (revisionId r2)) = Num 2"
      and gen3: "generation (parseRevisionId (revisionId r3)) = Num 2"
      and par1: "prevRevisionIds r1 = []"
      and par2: "prevRevisionIds r2 = [Some (revisionId r1)]"
      and par3: "prevRevisionIds r3 = [Some (revisionId r1)]"
      and hashes: "hash (parseRevisionId (revisionId r2)) \<noteq> hash (parseRevisionId (revisionId r3))"
      and ids: "distinct [ev_id e1, ev_id e2, ev_id e3]"
      and fresh: "getRevisions s d = []"
      and order: "evs \<in> {[e1, e2, e3], [e1, e3, e2], [e2, e1, e3],
                          [e2, e3, e1], [e3, e1, e2], [e3, e2, e1]}"
      and winner: "w = (if str_less (hash (parseRevisionId (revisionId r2)))
                                   (hash (parseRevisionId (revisionId r3))) then r3 else r2)"
      and loser: "l = (if str_less (hash (parseRevisionId (revisionId r2)))
                                  (hash (parseRevisionId (revisionId r3))) then r2 else r3)"
  shows "getDocument (addRevisions lc evs s) d = Some (documentOf d w)
       \<and> getRevisions (addRevisions lc evs s) d = [w, r1]
       \<and> l \<notin> set (getRevisions (addRevisions lc evs s) d)"
proof -
  have rids: "distinct [eventId r1, eventId r2, eventId r3]"
    using ids eventToRevision_Some_eventId [OF ev1] eventToRevision_Some_eventId [OF ev2]
      eventToRevision_Some_eventId [OF ev3] by simp
  have rids': "distinct [eventId r1, eventId r3, eventId r2]"
    using rids by auto
  have ne23: "r2 \<noteq> r3" using hashes by auto
  have ne12: "r2 \<noteq> r1" and ne13: "r3 \<noteq> r1" using gen1 gen2 gen3 by auto
  note runs =
    observe_three [OF ev1 tag1 ev2 tag2 ev3 tag3] observe_three [OF ev1 tag1 ev3 tag3 ev2 tag2]
    observe_three [OF ev2 tag2 ev1 tag1 ev3 tag3] observe_three [OF ev2 tag2 ev3 tag3 ev1 tag1]
    observe_three [OF ev3 tag3 ev1 tag1 ev2 tag2] observe_three [OF ev3 tag3 ev2 tag2 ev1 tag1]
  show ?thesis
  proof (cases "str_less (hash (parseRevisionId (revisionId r2)))
                         (hash (parseRevisionId (revisionId r3)))")
    case True
    note g = greater_rival_wins [OF gen1 gen2 gen3 par1 par2 par3 rids True,
        where lc = lc and d = d and ?doc0.0 = "getDocument s d"]
    have "(getRevisions (addRevisions lc evs s) d, getDocument (addRevisions lc evs s) d)
            = ([r3, r1], Some (documentOf d r3))"
      using order by (elim insertE emptyE) (simp_all only: runs fresh g)
    with True winner loser ne23 ne12 show ?thesis by simp
  next
    case False
    with hashes have less: "str_less (hash (parseRevisionId (revisionId r3)))
                                     (hash (parseRevisionId (revisionId r2)))"
      using str_less_total by blast
    note g = greater_rival_wins [OF gen1 gen3 gen2 par1 par3 par2 rids' less,
        where lc = lc and d = d and ?doc0.0 = "getDocument s d"]
    have "(getRevisions (addRevisions lc evs s) d, getDocument (addRevisions lc evs s) d)
            = ([r2, r1], Some (documentOf d r2))"
      using order by (elim insertE emptyE) (simp_all only: runs fresh g)
    with False winner loser ne23 ne13 show ?thesis by simp
  qed
qed

theorem order_independence_witness:
  "eventToRevision event1 = Some revision1 \<and> tag_value ''d'' (ev_tags event1) = Some ''doc-1''
   \<and> eventToRevision event2 = Some revision2 \<and> tag_value ''d'' (ev_tags event2) = Some ''doc-1''
   \<and> eventToRevision event3 = Some revision3 \<and> tag_value ''d'' (ev_tags event3) = Some ''doc-1''
   \<and> generation (parseRevisionId (revisionId revision1)) = Num 1
   \<and> generation (parseRevisionId (revisionId revision2)) = Num 2
   \<and> generation (parseRevisionId (revisionId revision3)) = Num 2
   \<and> prevRevisionIds revision1 = []
   \<and> prevRevisionIds revision2 = [Some (revisionId revision1)]
   \<and> prevRevisionIds revision3 = [Some (revisionId revision1)]
   \<and> hash (parseRevisionId (revisionId revision2)) \<noteq> hash (parseRevisionId (revisionId revision3))
   \<and> distinct [ev_id event1, ev_id event2, ev_id event3]
   \<and> getRevisions newDocumentStore ''doc-1'' = []
   \<and> str_less (hash (parseRevisionId (revisionId revision2)))
               (hash (parseRevisionId (revisionId revision3)))
   \<and> getDocument (addRevisions codeUnitCompare [event3, event2, event1] newDocumentStore) ''doc-1''
       = Some (documentOf ''doc-1'' revision3)
   \<and> getRevisions (addRevisions codeUnitCompare [event3, event2, event1] newDocumentStore) ''doc-1''
       = [revision3, revision1]
   \<and> revision2 \<notin> set (getRevisions
         (addRevisions codeUnitCompare [event3, event2, event1] newDocumentStore) ''doc-1'')"
proof -
  have gen1: "generation (parseRevisionId (revisionId revision1)) = Num 1"
   and gen2: "generation (parseRevisionId (revisionId revision2)) = Num 2"
   and gen3: "generation (parseRevisionId (revisionId revision3)) = Num 2"
    by (simp_all add: parseRevisionId_examples)
  have par1: "prevRevisionIds revision1 = []"
   and par2: "prevRevisionIds revision2 = [Some (revisionId revision1)]"
   and par3: "prevRevisionIds revision3 = [Some (revisionId revision1)]"
    by (simp_all add: example_defs)
  have hashes: "hash (parseRevisionId (revisionId revision2))
                  \<noteq> hash (parseRevisionId (revisionId revision3))"
    by (simp add: parseRevisionId_examples)
  have ids: "distinct [ev_id event1, ev_id event2, ev_id event3]"
    by (simp add: example_defs)
  have fresh: "getRevisions newDocumentStore ''doc-1'' = []"
    by (simp add: getRevisions_def newDocumentStore_def)
  have order: "[event3, event2, event1] \<in> {[event1, event2, event3], [event1, event3, event2],
      [event2, event1, event3], [event2, event3, event1], [event3, event1, event2],
      [event3, event2, event1]}"
    by simp
  have less: "str_less (hash (parseRevisionId (revisionId revision2)))
                       (hash (parseRevisionId (revisionId revision3)))"
    by (simp add: parseRevisionId_examples)
  have ne: "revision2 \<noteq> revision3" "revision2 \<noteq> revision1"
    by (simp_all add: example_defs)
  show ?thesis
    using eventToRevision_examples tag_value_examples gen1 gen2 gen3 par1 par2 par3 hashes ids
      fresh less ne
      order_independence [OF eventToRevision_examples(1) tag_value_examples(1)
        eventToRevision_examples(2) tag_value_examples(2)
        eventToRevision_examples(3) tag_value_examples(3)
        gen1 gen2 gen3 par1 par2 par3 hashes ids fresh order refl refl, of codeUnitCompare]
    by simp
qed

section \<open>The order of the history\<close>

text \<open>
  Claim C7 says that the history of a document stays in the order of insertion and that
  \<open>getRevisions\<close> returns it so. The store appends the new revision, but
  \<open>selectWinningRevision\<close> then sorts the stored array in place: after the first revision
  and then the second have been admitted, the second comes first in the history.
\<close>

theorem history_reordered:
  "getRevisions (addRevisions codeUnitCompare [event1] newDocumentStore) ''doc-1''
     = [revision1]
   \<and> fst (addRevision codeUnitCompare event2
            (addRevisions codeUnitCompare [event1] newDocumentStore)) = accept
   \<and> getRevisions (addRevisions codeUnitCompare [event1, event2] newDocumentStore) ''doc-1''
     = [revision2, revision1]
   \<and> getRevisions (addRevisions codeUnitCompare [event1, event2] newDocumentStore) ''doc-1''
     \<noteq> [revision1, revision2]"
  by (simp add: example_defs store_defs parse_defs)

section \<open>Parsing a revision identifier\<close>


lemma split_dash_nonempty: "split_dash s \<noteq> []"
  by (induction s) (auto split: list.splits)






section \<open>Digests of the examples\<close>

lemma replicate_numeral: "replicate (numeral k) x = x # replicate (pred_numeral k) x"
  by (simp add: numeral_eq_Suc)

lemmas sha_defs = sha256_hex_def sha256_def encode_def pad_def be64_def replicate_numeral
  word_bytes_def bytesToHex_def hex_digit_def compress_def schedule_def sha256_K_def
  sha256_IV_def next_w_def T1_def T2_def Sigma0_def Sigma1_def sigma0_def sigma1_def Chi_def
  Maj_def not32_def rotr_def shr_def add32_def

lemma sha256_hello:
  "sha256_hex ''hello'' = ''2cf24dba5fb0a30e26e83b2ac5b9e29e1b161e5c1fa7425e73043362938b9824''"
  by (simp add: sha_defs)

lemma sha256_world:
  "sha256_hex ''world'' = ''486ea46224d1bb4fb680f34f7c9ad96a8f24ec88be73ea8e5a6c65260e9cb8a7''"
  by (simp add: sha_defs)

lemma sha256_revision_world:
  "sha256_hex ''1-2cf24dba5fb0a30e26e83b2ac5b9e29e:486ea46224d1bb4fb680f34f7c9ad96a8f24ec88be73ea8e5a6c65260e9cb8a7''
     = ''21e1870b9fc3bf1417fe353e5cede6ad2b353a9f714fe9964d40554f82daa3c3''"
  by (simp add: sha_defs)

lemma sha256_hash_world:
  "sha256_hex ''2cf24dba5fb0a30e26e83b2ac5b9e29e:486ea46224d1bb4fb680f34f7c9ad96a8f24ec88be73ea8e5a6c65260e9cb8a7''
     = ''dbc5288031ee0699b5469e941f1f19f5ecb8ca57d091c5e538819bdf392c034f''"
  by (simp add: sha_defs)

lemma sha256_hash_short_world:
  "sha256_hex ''2cf24dba5fb0a30e26e83b2ac5b9e29e:486ea46224d1bb4fb680f34f7c9ad96a''
     = ''85a2277966254dd5c15f30a47ff6b7a0d3bd25ff3cb2619a5684faa4f8e9e056''"
  by (simp add: sha_defs)

lemma sha256_colon_hello:
  "sha256_hex '':2cf24dba5fb0a30e26e83b2ac5b9e29e1b161e5c1fa7425e73043362938b9824''
     = ''6fd605108267ea19a0c5a9140fc7fb901e23d71008bdb966d0b4940402db0eac''"
  by (simp add: sha_defs)

section \<open>The hash of a revision\<close>

lemma computeRevisionHash_eq:
  "computeRevisionHash prevRev c =
     (if truthy prevRev
      then take 32 (sha256_hex ((case prevRev of Some p \<Rightarrow> p | None \<Rightarrow> []) @ '':'' @ sha256_hex c))
      else take 32 (sha256_hex c))"
  by (cases prevRev) (simp_all add: computeRevisionHash_def sha256_hex_def Let_def)

text \<open>
  Claim C5, as stated: for every previous hash that is not \<open>null\<close> the result is the
  first 32 hexadecimal digits of the digest of the previous hash, a colon and the digest
  of the content. For the empty string as the previous hash the code returns the hash of
  the content alone, which is another value.
\<close>

theorem computeRevisionHash_counterexample:
  "computeRevisionHash (Some '''') ''hello'' = ''2cf24dba5fb0a30e26e83b2ac5b9e29e''
   \<and> take 32 (sha256_hex ('''' @ '':'' @ sha256_hex ''hello'')) = ''6fd605108267ea19a0c5a9140fc7fb90''
   \<and> computeRevisionHash (Some '''') ''hello''
       \<noteq> take 32 (sha256_hex ('''' @ '':'' @ sha256_hex ''hello''))"
  by (simp add: computeRevisionHash_eq sha256_hello sha256_colon_hello)

text \<open>
  Claim C5, amended. For every content \<open>c\<close>, \<open>computeRevisionHash(null, c)\<close> is the
  first 32 hexadecimal digits of the SHA-256 digest of \<open>c\<close>; for every previous hash
  \<open>p\<close> that is not empty, \<open>computeRevisionHash(p, c)\<close> is the first 32 digits of the
  digest of \<open>p\<close>, a colon and the digest of \<open>c\<close> in hexadecimal; and the empty
  string as previous hash gives the same as \<open>null\<close>.
\<close>

theorem computeRevisionHash_cases:
  "computeRevisionHash None c = take 32 (sha256_hex c)
   \<and> (p \<noteq> [] \<longrightarrow>
        computeRevisionHash (Some p) c = take 32 (sha256_hex (p @ '':'' @ sha256_hex c)))
   \<and> computeRevisionHash (Some []) c = take 32 (sha256_hex c)"
  by (simp add: computeRevisionHash_eq)

theorem computeRevisionHash_cases_witness:
  "''1-2cf24dba5fb0a30e26e83b2ac5b9e29e'' \<noteq> []
   \<and> computeRevisionHash None ''hello'' = ''2cf24dba5fb0a30e26e83b2ac5b9e29e''
   \<and> computeRevisionHash (Some ''1-2cf24dba5fb0a30e26e83b2ac5b9e29e'') ''world''
       = ''21e1870b9fc3bf1417fe353e5cede6ad''"
  using computeRevisionHash_cases [of "''hello''" "''1-2cf24dba5fb0a30e26e83b2ac5b9e29e''"]
    computeRevisionHash_cases [of "''world''" "''1-2cf24dba5fb0a30e26e83b2ac5b9e29e''"]
  by (simp add: sha256_hello sha256_world sha256_revision_world)

section \<open>Creating and updating a document\<close>

lemma createRevisionId_hello:
  "createRevisionId (Num 1) None ''hello'' = ''1-2cf24dba5fb0a30e26e83b2ac5b9e29e''"
  by (simp add: createRevisionId_def computeRevisionHash_eq sha256_hello nat_to_string_def
        decimal.simps digit_char_def)

lemma createRevisionId_world:
  "createRevisionId (Num 2) (Some ''1-2cf24dba5fb0a30e26e83b2ac5b9e29e'') ''world''
     = ''2-21e1870b9fc3bf1417fe353e5cede6ad''"
  by (simp add: createRevisionId_def computeRevisionHash_eq sha256_world sha256_revision_world
        nat_to_string_def decimal.simps digit_char_def)

lemma parseRevisionId_first:
  "parseRevisionId ''1-2cf24dba5fb0a30e26e83b2ac5b9e29e''
     = \<lparr>generation = Num 1, hash = ''2cf24dba5fb0a30e26e83b2ac5b9e29e''\<rparr>"
  by (simp add: parse_defs)

lemma parseRevisionId_second:
  "parseRevisionId ''2-21e1870b9fc3bf1417fe353e5cede6ad''
     = \<lparr>generation = Num 2, hash = ''21e1870b9fc3bf1417fe353e5cede6ad''\<rparr>"
  by (simp add: parse_defs)

text \<open>
  Claim C4, as stated: the identifier of the update is \<open>2-\<close> followed by the hash of
  \<open>prevHash:hash(world)\<close> where \<open>prevHash\<close> is the hash of generation 1. The code
  passes the whole identifier of generation 1, \<open>1-\<close> and its hash, as the previous
  revision, so the identifier it produces differs from the stated one, whether the inner
  digest is taken in full or cut to 32 digits.
\<close>

theorem update_revisionId_counterexample:
  "map_option doc_revisionId
     (getDocument
        (snd (updateDocument codeUnitCompare (Some ''79be'') echoPublish ''doc-1'' ''world''
           (snd (createDocument codeUnitCompare (Some ''79be'') echoPublish ''doc-1'' ''hello''
              newDocumentStore))))
        ''doc-1'')
     = Some ''2-21e1870b9fc3bf1417fe353e5cede6ad''
   \<and> ''2-'' @ take 32 (sha256_hex (take 32 (sha256_hex ''hello'') @ '':'' @ sha256_hex ''world''))
     = ''2-dbc5288031ee0699b5469e941f1f19f5''
   \<and> ''2-'' @ take 32 (sha256_hex (take 32 (sha256_hex ''hello'') @ '':''
                                     @ take 32 (sha256_hex ''world'')))
     = ''2-85a2277966254dd5c15f30a47ff6b7a0''"
  by (simp add: createDocument_def updateDocument_def publishAndAdmit_def echoPublish_def
        finalizeEvent_def createRevisionId_hello createRevisionId_world
        parseRevisionId_first parseRevisionId_second sha256_hello sha256_world sha256_hash_world
        sha256_hash_short_world store_defs codeUnitCompare_def Let_def jsnum_of_int_def
        round_f64_def split: prod.splits)


lemma addRevision_accepts:
  assumes "eventToRevision ev = Some r" and "tag_value ''d'' (ev_tags ev) = Some d"
      and "\<not> list_ex (\<lambda>x. eventId x = ev_id ev) (getRevisions s d)"
      and "findConflict d (referencedRevisions (getRevisions s d) r)
             (parseRevisionId (revisionId r)) (getRevisions s d) = None"
  shows "fst (addRevision lc ev s) = accept"
  using assms(3,4) by (simp add: addRevision_valid [OF assms(1,2)])

lemma publishAndAdmit_accepted:
  assumes "publish tpl = Inr ev" and "fst (addRevision lc ev s) = accept"
  shows "publishAndAdmit lc publish tpl d s
           = (Inr (getDocument (snd (addRevision lc ev s)) d), snd (addRevision lc ev s))"
  using assms by (cases "addRevision lc ev s") (simp add: publishAndAdmit_def accept_def)

text \<open>
  Claim C4, amended. With a signing key present, a publisher that returns the finalized
  template (events of different content having different identifiers) and a store without
  history for \<open>doc-1\<close>: creating \<open>doc-1\<close> with the content \<open>hello\<close> gives the
  identifier \<open>1-\<close> followed by the first 32 digits of the digest of \<open>hello\<close>; updating
  it to \<open>world\<close> gives \<open>2-\<close> followed by the first 32 digits of the digest of
  \<open>prev:digest(world)\<close>, where \<open>prev\<close> is the whole identifier of generation 1
  (\<open>1-\<close> and its hash), with that identifier as the only parent. Afterwards the content
  of the document is \<open>world\<close> and its history has two entries.
\<close>

theorem end_to_end_scenario:
  assumes pub: "\<And>tpl. publish tpl = Inr (finalizeEvent (idOf tpl) (clock tpl) tpl)"
      and ids: "\<And>a b. idOf a = idOf b \<Longrightarrow> tpl_content a = tpl_content b"
      and key: "truthy publicKey"
      and fresh: "getRevisions s ''doc-1'' = []"
      and c: "c = createDocument lc publicKey publish ''doc-1'' ''hello'' s"
      and u: "u = updateDocument lc publicKey publish ''doc-1'' ''world'' (snd c)"
      and id1: "id1 = ''1-'' @ take 32 (sha256_hex ''hello'')"
      and id2: "id2 = ''2-'' @ take 32 (sha256_hex (id1 @ '':'' @ sha256_hex ''world''))"
  shows "fst c = Inr (getDocument (snd c) ''doc-1'')
       \<and> map_option doc_revisionId (getDocument (snd c) ''doc-1'') = Some id1
       \<and> fst u = Inr (getDocument (snd u) ''doc-1'')
       \<and> map_option doc_revisionId (getDocument (snd u) ''doc-1'') = Some id2
       \<and> map_option doc_prevRevisionIds (getDocument (snd u) ''doc-1'') = Some [Some id1]
       \<and> map_option doc_content (getDocument (snd u) ''doc-1'') = Some ''world''
       \<and> length (getRevisions (snd u) ''doc-1'') = 2
       \<and> id1 = ''1-2cf24dba5fb0a30e26e83b2ac5b9e29e''
       \<and> id2 = ''2-21e1870b9fc3bf1417fe353e5cede6ad''"
proof -
  let ?rid1 = "''1-2cf24dba5fb0a30e26e83b2ac5b9e29e''"
  let ?rid2 = "''2-21e1870b9fc3bf1417fe353e5cede6ad''"
  let ?t1 = "\<lparr>tpl_kind = DOC_KIND, tpl_content = ''hello'',
              tpl_tags = createDocumentTags ''doc-1'' ?rid1 [] False\<rparr>"
  let ?t2 = "\<lparr>tpl_kind = DOC_KIND, tpl_content = ''world'',
              tpl_tags = createDocumentTags ''doc-1'' ?rid2 [?rid1] False\<rparr>"
  let ?e1 = "finalizeEvent (idOf ?t1) (clock ?t1) ?t1"
  let ?e2 = "finalizeEvent (idOf ?t2) (clock ?t2) ?t2"
  let ?r1 = "\<lparr>revisionId = ?rid1, content = ''hello'', prevRevisionIds = [],
              createdAt = clock ?t1, eventId = idOf ?t1, deleted = False\<rparr>"
  let ?r2 = "\<lparr>revisionId = ?rid2, content = ''world'', prevRevisionIds = [Some ?rid1],
              createdAt = clock ?t2, eventId = idOf ?t2, deleted = False\<rparr>"
  let ?s1 = "snd (addRevision lc ?e1 s)"
  let ?s2 = "snd (addRevision lc ?e2 ?s1)"
  have i1: "id1 = ?rid1"
    by (simp add: id1 sha256_hello)
  have i2: "id2 = ?rid2"
    by (simp add: id2 i1 sha256_world sha256_revision_world)
  have ev1: "eventToRevision ?e1 = Some ?r1"
    by (simp add: finalizeEvent_def eventToRevision_def tag_value_def createDocumentTags_def
          DOC_KIND_def)
  have tag1: "tag_value ''d'' (ev_tags ?e1) = Some ''doc-1''"
    by (simp add: finalizeEvent_def tag_value_def createDocumentTags_def)
  have ev2: "eventToRevision ?e2 = Some ?r2"
    by (simp add: finalizeEvent_def eventToRevision_def tag_value_def createDocumentTags_def
          DOC_KIND_def)
  have tag2: "tag_value ''d'' (ev_tags ?e2) = Some ''doc-1''"
    by (simp add: finalizeEvent_def tag_value_def createDocumentTags_def)
  have differ: "idOf ?t1 \<noteq> idOf ?t2"
    using ids [of ?t1 ?t2] by auto
  have o1: "(getRevisions ?s1 ''doc-1'', getDocument ?s1 ''doc-1'')
              = ([?r1], Some (documentOf ''doc-1'' ?r1))"
    unfolding observe_addRevision [OF ev1 tag1] fresh
    by (simp add: admitted_def pruned_def array_sort_def)
  have a1: "fst (addRevision lc ?e1 s) = accept"
    by (rule addRevision_accepts [OF ev1 tag1]) (simp_all add: fresh)
  have c': "c = (Inr (getDocument ?s1 ''doc-1''), ?s1)"
    using key
    by (simp add: c createDocument_def createRevisionId_hello Let_def
          publishAndAdmit_accepted [where publish = publish and tpl = ?t1, OF pub a1])
  have h1: "getRevisions ?s1 ''doc-1'' = [?r1]"
   and d1: "getDocument ?s1 ''doc-1'' = Some (documentOf ''doc-1'' ?r1)"
    using o1 by simp_all
  have nodup: "\<not> list_ex (\<lambda>x. eventId x = ev_id ?e2) (getRevisions ?s1 ''doc-1'')"
    unfolding h1 using differ by (simp add: finalizeEvent_def)
  have noconf: "findConflict ''doc-1'' (referencedRevisions (getRevisions ?s1 ''doc-1'') ?r2)
                  (parseRevisionId (revisionId ?r2)) (getRevisions ?s1 ''doc-1'') = None"
    by (simp add: h1 parseRevisionId_first parseRevisionId_second js_eq_def)
  have o2: "(getRevisions ?s2 ''doc-1'', getDocument ?s2 ''doc-1'')
              = ([?r2, ?r1], Some (documentOf ''doc-1'' ?r2))"
    unfolding observe_addRevision [OF ev2 tag2] o1
    using differ
    by (simp add: admitted_def pruned_def array_sort_def keepExisting_def compareRevisions_def
          parseRevisionId_first parseRevisionId_second js_eq_def jsnum_sub_def jsnum_of_int_def
          round_f64_def)
  have a2: "fst (addRevision lc ?e2 ?s1) = accept"
    by (rule addRevision_accepts [OF ev2 tag2 nodup noconf])
  have u': "u = (Inr (getDocument ?s2 ''doc-1''), ?s2)"
    using key
    by (simp add: u c' updateDocument_def d1 documentOf_def parseRevisionId_first
          jsnum_of_int_def round_f64_def createRevisionId_world Let_def publishAndAdmit_accepted [where publish = publish and tpl = ?t2, OF pub a2])
  show ?thesis
    using o1 o2 by (simp add: c' u' i1 i2 documentOf_def)
qed

theorem end_to_end_scenario_witness:
  "(\<forall>tpl. echoPublish tpl = Inr (finalizeEvent (tpl_content tpl) 1700000000 tpl))
   \<and> truthy (Some ''79be'')
   \<and> getRevisions newDocumentStore ''doc-1'' = []
   \<and> map_option doc_revisionId
        (getDocument (snd (createDocument codeUnitCompare (Some ''79be'') echoPublish
           ''doc-1'' ''hello'' newDocumentStore)) ''doc-1'')
       = Some ''1-2cf24dba5fb0a30e26e83b2ac5b9e29e''
   \<and> map_option doc_revisionId
        (getDocument (snd (updateDocument codeUnitCompare (Some ''79be'') echoPublish
           ''doc-1'' ''world''
           (snd (createDocument codeUnitCompare (Some ''79be'') echoPublish
              ''doc-1'' ''hello'' newDocumentStore)))) ''doc-1'')
       = Some ''2-21e1870b9fc3bf1417fe353e5cede6ad''
   \<and> map_option doc_content
        (getDocument (snd (updateDocument codeUnitCompare (Some ''79be'') echoPublish
           ''doc-1'' ''world''
           (snd (createDocument codeUnitCompare (Some ''79be'') echoPublish
              ''doc-1'' ''hello'' newDocumentStore)))) ''doc-1'')
       = Some ''world''
   \<and> length (getRevisions (snd (updateDocument codeUnitCompare (Some ''79be'') echoPublish
           ''doc-1'' ''world''
           (snd (createDocument codeUnitCompare (Some ''79be'') echoPublish
              ''doc-1'' ''hello'' newDocumentStore)))) ''doc-1'') = 2"
proof -
  have pub: "\<And>tpl. echoPublish tpl = Inr (finalizeEvent (tpl_content tpl) 1700000000 tpl)"
    by (simp add: echoPublish_def)
  have ids: "\<And>a b :: EventTemplate. tpl_content a = tpl_content b \<Longrightarrow> tpl_content a = tpl_content b"
    by simp
  have key: "truthy (Some ''79be'')"
    by simp
  have fresh: "getRevisions newDocumentStore ''doc-1'' = []"
    by (simp add: getRevisions_def newDocumentStore_def)
  have e1: "''1-2cf24dba5fb0a30e26e83b2ac5b9e29e'' = ''1-'' @ take 32 (sha256_hex ''hello'')"
    by (simp add: sha256_hello)
  have e2: "''2-21e1870b9fc3bf1417fe353e5cede6ad''
              = ''2-'' @ take 32 (sha256_hex (''1-2cf24dba5fb0a30e26e83b2ac5b9e29e'' @ '':''
                                               @ sha256_hex ''world''))"
    by (simp add: sha256_world sha256_revision_world)
  show ?thesis
    using pub key fresh
      end_to_end_scenario [of echoPublish tpl_content "\<lambda>tpl. 1700000000", OF pub ids key fresh
        refl refl e1 e2, of codeUnitCompare]
    by blast
qed

section \<open>A second changes-feed query\<close>

text \<open>
  Claim C8, as stated: a second \<open>fetchChanges\<close> while a first one is pending fails at
  once with an error and leaves the first one's slot alone. In the code the second call
  does not fail: its promise is pending, its request has been sent, and the slot now holds
  the second call's pair, so that the next answer fulfils the second promise and leaves the
  first one pending.
\<close>

theorem second_fetchChanges_counterexample:
  "snd (fetchChanges query5 (snd (fetchChanges query0 openClient)))
     = \<lparr>wsOpen = True, pendingChanges = Some 1, promises = [Pending, Pending],
        sent = [query0, query5]\<rparr>
   \<and> promises (handleChanges noChanges
        (snd (fetchChanges query5 (snd (fetchChanges query0 openClient)))))
     = [Pending, Fulfilled noChanges]"
  by (simp add: fetchChanges_def openClient_def handleChanges_def settle_def)

text \<open>
  Claim C8, amended. On an open connection with a query pending, a second
  \<open>fetchChanges\<close> does not fail: it sends its request, returns a pending promise, and
  puts its own completion pair into the single slot in place of the first one's. A
  \<open>CHANGES\<close> answer that arrives next fulfils the second promise only, not the first,
  and empties the slot.
\<close>

theorem second_fetchChanges_displaces:
  assumes "wsOpen c" and "pendingChanges c = Some p"
      and "p < length (promises c)" and "promises c ! p = Pending"
      and "q = fst (fetchChanges options c)" and "c' = snd (fetchChanges options c)"
  shows "q = length (promises c) \<and> q \<noteq> p
       \<and> promises c' ! q = Pending
       \<and> promises c' ! p = Pending
       \<and> pendingChanges c' = Some q
       \<and> sent c' = sent c @ [options]
       \<and> promises (handleChanges result c') ! q = Fulfilled result
       \<and> promises (handleChanges result c') ! p = Pending
       \<and> pendingChanges (handleChanges result c') = None"
  using assms
  by (auto simp: fetchChanges_def handleChanges_def settle_def nth_append nth_list_update)

theorem second_fetchChanges_displaces_witness:
  "wsOpen (snd (fetchChanges query0 openClient))
   \<and> pendingChanges (snd (fetchChanges query0 openClient)) = Some 0
   \<and> 0 < length (promises (snd (fetchChanges query0 openClient)))
   \<and> promises (snd (fetchChanges query0 openClient)) ! 0 = Pending
   \<and> fst (fetchChanges query5 (snd (fetchChanges query0 openClient))) = 1
   \<and> promises (snd (fetchChanges query5 (snd (fetchChanges query0 openClient)))) ! 1 = Pending
   \<and> pendingChanges (snd (fetchChanges query5 (snd (fetchChanges query0 openClient)))) = Some 1
   \<and> promises (handleChanges noChanges
         (snd (fetchChanges query5 (snd (fetchChanges query0 openClient))))) ! 1
       = Fulfilled noChanges
   \<and> promises (handleChanges noChanges
         (snd (fetchChanges query5 (snd (fetchChanges query0 openClient))))) ! 0 = Pending"
proof -
  let ?c = "snd (fetchChanges query0 openClient)"
  have c: "?c = \<lparr>wsOpen = True, pendingChanges = Some 0, promises = [Pending], sent = [query0]\<rparr>"
    by (simp add: fetchChanges_def openClient_def)
  have h1: "wsOpen ?c" and h2: "pendingChanges ?c = Some 0"
   and h3: "0 < length (promises ?c)" and h4: "promises ?c ! 0 = Pending"
    by (simp_all add: c)
  have l: "length (promises ?c) = 1"
    by (simp add: c)
  show ?thesis
    using h1 h2 h3 h4 l
      second_fetchChanges_displaces [OF h1 h2 h3 h4 refl refl, of query5 noChanges]
    by auto
qed

end
